theory Spec2Isabelle
  imports Complex_Main "HOL-Library.AList" "HOL-Library.Log_Nat" "HOL-Library.Multiset"
    "HOL-Library.Word"
begin

section \<open>Data model of the bulk uploader (src/src/App.tsx)\<close>

text \<open>
  The seven values of the TypeScript union \<open>UploadStage\<close>. The constructors are
  capitalised because \<open>done\<close> is a reserved word.
\<close>

datatype UploadStage = Pending | Creating | Uploading | Uploaded | Polling | Done | Error

text \<open>
  The browser's \<open>File\<close>: only the two properties the program reads, \<open>file.name\<close> and
  \<open>file.type\<close>.
\<close>

record File =
  name :: string
  type :: string

text \<open>
  \<open>UploadItem\<close>. The field \<open>id\<close> is called \<open>item_id\<close> and \<open>file\<close> is called
  \<open>item_file\<close>; the optional fields \<open>videoId?\<close> and \<open>errorMessage?\<close> are options, with
  \<open>None\<close> for an absent property.
\<close>

record UploadItem =
  item_id :: string
  item_file :: File
  title :: string
  progressPercent :: int
  stage :: UploadStage
  statusText :: string
  videoId :: "string option"
  errorMessage :: "string option"

definition MAX_FILES :: nat where
  "MAX_FILES = 10"

text \<open>The character U+2026 that ends three of the captions, in UTF-8.\<close>

definition ellipsis :: string where
  "ellipsis = [CHR 0xE2, CHR 0x80, CHR 0xA6]"


section \<open>JavaScript strings and values\<close>

text \<open>
  Strings are byte strings (UTF-8), except the access token, which is kept as its
  UTF-16 code units because \<open>trim\<close> is defined on them. Decimal rendering of a number
  inside a template literal, for the integers the program renders (an HTTP status, an
  index, a length, a millisecond clock).
\<close>

fun string_of_nat :: "nat \<Rightarrow> string" where
  "string_of_nat n =
     (if n < 10 then [''0123456789'' ! n]
      else string_of_nat (n div 10) @ [''0123456789'' ! (n mod 10)])"

declare string_of_nat.simps [simp del]

definition string_of_int :: "int \<Rightarrow> string" where
  "string_of_int n =
     (if n < 0 then ''-'' @ string_of_nat (nat (- n)) else string_of_nat (nat n))"

text \<open>
  \<open>String.prototype.toLowerCase\<close> on the ASCII letters; every other byte is kept. The
  program only compares the result with all-ASCII words, and no character outside ASCII
  lower-cases to a letter of those words.
\<close>

definition toLowerCase_char :: "char \<Rightarrow> char" where
  "toLowerCase_char c =
     (case map_of (zip ''ABCDEFGHIJKLMNOPQRSTUVWXYZ'' ''abcdefghijklmnopqrstuvwxyz'') c of
        Some l \<Rightarrow> l
      | None \<Rightarrow> c)"

definition toLowerCase :: "string \<Rightarrow> string" where
  "toLowerCase s = map toLowerCase_char s"

text \<open>
  \<open>String.prototype.trim\<close> on a string given by its UTF-16 code units. It removes, at
  both ends, the code units of ECMAScript's \<open>WhiteSpace\<close> and \<open>LineTerminator\<close>:
  U+0009 to U+000D, U+0020, U+00A0, U+1680, U+2000 to U+200A, U+2028, U+2029, U+202F,
  U+205F, U+3000 and U+FEFF.
\<close>

definition is_white_space :: "16 word \<Rightarrow> bool" where
  "is_white_space c =
     (c \<in> set [0x0009, 0x000A, 0x000B, 0x000C, 0x000D, 0x0020, 0x00A0, 0x1680,
               0x2000, 0x2001, 0x2002, 0x2003, 0x2004, 0x2005, 0x2006, 0x2007, 0x2008,
               0x2009, 0x200A, 0x2028, 0x2029, 0x202F, 0x205F, 0x3000, 0xFEFF])"

definition trim :: "16 word list \<Rightarrow> 16 word list" where
  "trim s = rev (dropWhile is_white_space (rev (dropWhile is_white_space s)))"

text \<open>
  A value as \<open>JSON.parse\<close> produces it. \<open>JNum\<close> carries the value of a finite number
  (zero of either sign is \<open>0\<close>); \<open>JInfinity negative\<close> is what a numeric literal
  too large for a double is parsed to, \<open>Infinity\<close> or \<open>-Infinity\<close>; \<open>JObj\<close> lists
  the own properties of a plain object in enumeration order, with distinct keys. A
  property that is absent (\<open>undefined\<close>) is \<open>None\<close> of \<open>jsval option\<close>.
\<close>

datatype jsval = JNull | JBool bool | JNum rat | JInfinity bool | JStr string
  | JArr "jsval list" | JObj "(string \<times> jsval) list"

text \<open>
  The \<open>TypeError\<close>s that the conversions below can throw: reading a property of
  \<open>undefined\<close> (\<open>None\<close>) or \<open>null\<close>; calling \<open>v.toString()\<close> where the property is
  not a function; and converting to a primitive an object that has no callable
  \<open>toString\<close> (its \<open>valueOf\<close> returns the object itself or is not callable either).
\<close>

datatype js_throw =
    CannotReadProperty "jsval option" string
  | NotAFunction jsval
  | CannotConvert jsval

text \<open>
  What is left to the JavaScript engine: \<open>Number::toString\<close>, the rendering of a
  finite number (which is also what \<open>JSON.stringify\<close> prints for it), and the
  \<open>message\<close> of the \<open>TypeError\<close> it creates. Every definition that depends on them takes the engine as
  its first argument.
\<close>

record engine =
  Number_toString :: "rat \<Rightarrow> string"
  TypeError_message :: "js_throw \<Rightarrow> string"

fun truthy :: "jsval \<Rightarrow> bool" where
  "truthy JNull = False"
| "truthy (JBool b) = b"
| "truthy (JNum x) = (x \<noteq> 0)"
| "truthy (JInfinity negative) = True"
| "truthy (JStr s) = (s \<noteq> [])"
| "truthy (JArr xs) = True"
| "truthy (JObj kvs) = True"

fun truthy_opt :: "jsval option \<Rightarrow> bool" where
  "truthy_opt None = False"
| "truthy_opt (Some v) = truthy v"

text \<open>
  The operators \<open>a || b\<close> and \<open>a && b\<close>; \<open>js_or_val\<close> is \<open>a || b\<close> for a right
  operand that is not \<open>undefined\<close>, so that the result is a value.
\<close>

definition js_or :: "jsval option \<Rightarrow> jsval option \<Rightarrow> jsval option" where
  "js_or a b = (if truthy_opt a then a else b)"

definition js_and :: "jsval option \<Rightarrow> jsval option \<Rightarrow> jsval option" where
  "js_and a b = (if truthy_opt a then b else a)"

definition js_or_val :: "jsval option \<Rightarrow> jsval \<Rightarrow> jsval" where
  "js_or_val a b = (case a of Some v \<Rightarrow> if truthy v then v else b | None \<Rightarrow> b)"

text \<open>
  Reading a property \<open>v.k\<close> of a value that is neither \<open>null\<close> nor \<open>undefined\<close>, for
  the four property names the program reads (\<open>status\<close>, \<open>encodingStatus\<close>, \<open>message\<close>,
  \<open>error\<close>): an object yields its own property, and a string, number, boolean or array
  has no property of these names.
\<close>

fun js_get :: "jsval \<Rightarrow> string \<Rightarrow> jsval option" where
  "js_get (JObj kvs) k = map_of kvs k"
| "js_get v k = None"

fun join :: "string \<Rightarrow> string list \<Rightarrow> string" where
  "join sep [] = []"
| "join sep [x] = x"
| "join sep (x # y # ys) = x @ sep @ join sep (y # ys)"

text \<open>
  The abstract operation \<open>ToString\<close>, which a template literal \<open>`${v}`\<close> applies. A
  parsed object inherits \<open>Object.prototype.toString\<close> and converts to
  \<open>[object Object]\<close>, unless it has an own property \<open>toString\<close>: that property is
  not a function, the object's \<open>valueOf\<close> yields no primitive, and the conversion
  throws. An array converts by \<open>Array.prototype.join\<close>: its elements in order,
  \<open>null\<close> as the empty string, separated by commas; the first element that throws
  ends it.
\<close>

fun js_ToString :: "engine \<Rightarrow> jsval \<Rightarrow> js_throw + string"
  and js_join :: "engine \<Rightarrow> jsval list \<Rightarrow> js_throw + string" where
  "js_ToString eng JNull = Inr ''null''"
| "js_ToString eng (JBool b) = Inr (if b then ''true'' else ''false'')"
| "js_ToString eng (JNum x) = Inr (Number_toString eng x)"
| "js_ToString eng (JInfinity negative) = Inr (if negative then ''-Infinity'' else ''Infinity'')"
| "js_ToString eng (JStr s) = Inr s"
| "js_ToString eng (JArr xs) = js_join eng xs"
| "js_ToString eng (JObj kvs) =
     (if map_of kvs ''toString'' = None then Inr ''[object Object]''
      else Inl (CannotConvert (JObj kvs)))"
| "js_join eng [] = Inr []"
| "js_join eng (x # xs) =
     (case (if x = JNull then Inr [] else js_ToString eng x) of
        Inl t \<Rightarrow> Inl t
      | Inr s \<Rightarrow>
          if xs = [] then Inr s
          else (case js_join eng xs of Inl t \<Rightarrow> Inl t | Inr r \<Rightarrow> Inr (s @ '','' @ r)))"

text \<open>
  The method call \<open>v.toString()\<close>. It is the conversion above, except that an own
  property \<open>toString\<close> of an object is what gets called, and is not a function, and
  that \<open>null\<close> has no properties.
\<close>

definition js_toString_call :: "engine \<Rightarrow> jsval \<Rightarrow> js_throw + string" where
  "js_toString_call eng v =
     (case v of
        JNull \<Rightarrow> Inl (CannotReadProperty (Some JNull) ''toString'')
      | JObj kvs \<Rightarrow>
          if map_of kvs ''toString'' = None then Inr ''[object Object]''
          else Inl (NotAFunction (JObj kvs))
      | _ \<Rightarrow> js_ToString eng v)"

text \<open>
  \<open>JSON.stringify\<close> with one argument. No parsed value has a callable \<open>toJSON\<close>, so
  it never throws.
\<close>

definition hex_digit :: "nat \<Rightarrow> char" where
  "hex_digit n = ''0123456789abcdef'' ! n"

definition JSON_quote_char :: "char \<Rightarrow> string" where
  "JSON_quote_char c =
     (if c = CHR 0x22 then [CHR 0x5C, CHR 0x22]
      else if c = CHR 0x5C then [CHR 0x5C, CHR 0x5C]
      else if c = CHR 0x08 then [CHR 0x5C, CHR ''b'']
      else if c = CHR 0x0C then [CHR 0x5C, CHR ''f'']
      else if c = CHR 0x0A then [CHR 0x5C, CHR ''n'']
      else if c = CHR 0x0D then [CHR 0x5C, CHR ''r'']
      else if c = CHR 0x09 then [CHR 0x5C, CHR ''t'']
      else if (of_char c :: nat) < 32
        then [CHR 0x5C, CHR ''u'', CHR ''0'', CHR ''0'',
              hex_digit ((of_char c :: nat) div 16), hex_digit ((of_char c :: nat) mod 16)]
      else [c])"

definition JSON_quote :: "string \<Rightarrow> string" where
  "JSON_quote s = [CHR 0x22] @ concat (map JSON_quote_char s) @ [CHR 0x22]"

fun JSON_stringify :: "engine \<Rightarrow> jsval \<Rightarrow> string" where
  "JSON_stringify eng JNull = ''null''"
| "JSON_stringify eng (JBool b) = (if b then ''true'' else ''false'')"
| "JSON_stringify eng (JNum x) = Number_toString eng x"
| "JSON_stringify eng (JInfinity negative) = ''null''"
| "JSON_stringify eng (JStr s) = JSON_quote s"
| "JSON_stringify eng (JArr xs) = ''['' @ join '','' (map (JSON_stringify eng) xs) @ '']''"
| "JSON_stringify eng (JObj kvs) =
     ''{'' @ join '','' (map (\<lambda>(k, v). JSON_quote k @ '':'' @ JSON_stringify eng v) kvs) @ ''}''"

section \<open>Numbers: the percentage of an upload\<close>

text \<open>
  \<open>Math.round((evt.loaded / evt.total) * 100)\<close> is computed in IEEE 754 binary64. A
  finite double is a rational number; \<open>to_double q\<close> is the double nearest to a
  rational \<open>q \<ge> 0\<close> (53 significant bits, ties to the even significand), which is what a
  division or a multiplication of two doubles returns for the exact result \<open>q\<close>. The
  byte counts are non-negative integers below \<open>2 ^ 53\<close>, so they are doubles
  themselves and no result leaves the normal range.
\<close>

definition round_half_even :: "rat \<Rightarrow> int" where
  "round_half_even x =
     (let f = \<lfloor>x\<rfloor>; d = x - of_int f
      in if d < 1 / 2 then f else if 1 / 2 < d then f + 1 else if even f then f else f + 1)"

text \<open>The power \<open>2 ^ k\<close> for an integer \<open>k\<close> of either sign.\<close>

definition pow2 :: "int \<Rightarrow> rat" where
  "pow2 k = (if 0 \<le> k then 2 ^ nat k else 1 / 2 ^ nat (- k))"

text \<open>The binary exponent \<open>e\<close> of \<open>q > 0\<close>: \<open>2 ^ e \<le> q < 2 ^ (e + 1)\<close>.\<close>

definition binary_exponent :: "rat \<Rightarrow> int" where
  "binary_exponent q =
     (let (a, b) = quotient_of q; k = bitlen a - bitlen b
      in if pow2 k \<le> q then k else k - 1)"

definition to_double :: "rat \<Rightarrow> rat" where
  "to_double q =
     (if q = 0 then 0
      else let e = binary_exponent q
           in of_int (round_half_even (q * pow2 (52 - e))) * pow2 (e - 52))"

text \<open>\<open>Math.round\<close>: the nearest integer, a tie going up.\<close>

definition Math_round :: "rat \<Rightarrow> int" where
  "Math_round x = \<lfloor>x + 1 / 2\<rfloor>"

definition percent_of :: "nat \<Rightarrow> nat \<Rightarrow> int" where
  "percent_of l t = Math_round (to_double (to_double (of_nat l / of_nat t) * 100))"


section \<open>Transport results\<close>

text \<open>
  What the program reads of the value that a request throws: \<open>err.response\<close> (with its
  \<open>status\<close> and \<open>data\<close>), whether \<open>err.request\<close> is present, and \<open>err.message\<close>.
  The status is the \<open>unsigned short\<close> of \<open>XMLHttpRequest.status\<close>; the body
  \<open>response_data\<close> is any value, \<open>None\<close> when it is \<open>undefined\<close>. The
  program only tests \<open>err.message\<close> for truthiness before it returns it, so an
  absent message is the empty string.
\<close>

record AxiosResponse =
  response_status :: "16 word"
  response_data :: "jsval option"

record AxiosError =
  response :: "AxiosResponse option"
  request :: bool
  message :: string

text \<open>
  A \<open>TypeError\<close> that was thrown, as the \<open>catch\<close> blocks see it: it has no
  \<open>response\<close> and no \<open>request\<close>, and its \<open>message\<close> is the engine's.
\<close>

definition thrown :: "engine \<Rightarrow> js_throw \<Rightarrow> AxiosError" where
  "thrown eng t = \<lparr>response = None, request = False, message = TypeError_message eng t\<rparr>"

text \<open>The two fields \<open>startUploads\<close> takes from the value \<open>createVideo\<close> returns.\<close>

record CreateVideoData =
  created_videoId :: string
  signedUrl :: string

text \<open>
  The progress event of the upload: \<open>evt.loaded\<close> and \<open>evt.total\<close>, the latter
  \<open>None\<close> when axios leaves it \<open>undefined\<close>.
\<close>

record ProgressEvent =
  loaded :: nat
  total_bytes :: "nat option"

subsection \<open>extractAxiosError\<close>

text \<open>
  The result is \<open>Inr\<close> of the string returned, or \<open>Inl\<close> of the \<open>TypeError\<close> that
  the template literal \<open>`${status}: ${msg}`\<close> throws when \<open>msg\<close> does not convert to
  a string.
\<close>

definition extractAxiosError :: "engine \<Rightarrow> AxiosError \<Rightarrow> js_throw + string" where
  "extractAxiosError eng err =
     (case response err of
        Some r \<Rightarrow>
          (let msg =
                 js_or_val
                   (case response_data r of
                      None \<Rightarrow> None
                    | Some d \<Rightarrow>
                        js_and (Some d)
                          (js_or (js_or (js_get d ''message'') (js_get d ''error''))
                                 (Some (JStr (JSON_stringify eng d)))))
                   (JStr ''Request failed'')
           in case js_ToString eng msg of
                Inl t \<Rightarrow> Inl t
              | Inr m \<Rightarrow> Inr (string_of_nat (unat (response_status r)) @ '': '' @ m))
      | None \<Rightarrow>
          Inr (if request err then ''No response from server''
               else if message err \<noteq> [] then message err else ''Unknown error''))"

section \<open>The component state and its timers\<close>

text \<open>
  The state of \<open>App\<close> that the upload and poll logic reads and writes: the React state
  \<open>token\<close> (as UTF-16 code units), \<open>files\<close>, \<open>items\<close>, \<open>isUploading\<close>, \<open>warning\<close>;
  the registry \<open>pollTimersRef.current\<close>, a JavaScript \<open>Map\<close> from item id to timer
  handle, kept as an association list in insertion order; and two parts of the
  environment:
  \<^item> \<open>intervals\<close>, the interval timers of \<open>window\<close> that are active, each handle with
    the \<open>itemId\<close> and \<open>videoId\<close> its callback \<open>run\<close> has captured and its period in
    milliseconds, and \<open>nextTimer\<close>, the handle the next \<open>window.setInterval\<close>
    returns (handles are positive and never reused);
  \<^item> \<open>awaited\<close>, one id for every pipeline promise that the pending \<open>Promise.all\<close>
    of \<open>startUploads\<close> still waits for.
  State updates are applied in the order the program issues them.
\<close>

record AppState =
  token :: "16 word list"
  files :: "File list"
  items :: "UploadItem list"
  isUploading :: bool
  warning :: string
  pollTimers :: "(string \<times> nat) list"
  intervals :: "(nat \<times> string \<times> string \<times> nat) list"
  nextTimer :: nat
  awaited :: "string list"

definition init_state :: AppState where
  "init_state =
     \<lparr>token = [], files = [], items = [], isUploading = False, warning = [],
      pollTimers = [], intervals = [], nextTimer = 1, awaited = []\<rparr>"

definition clearInterval :: "nat \<Rightarrow> AppState \<Rightarrow> AppState" where
  "clearInterval h st = st\<lparr>intervals := AList.delete h (intervals st)\<rparr>"

definition setInterval :: "string \<times> string \<Rightarrow> nat \<Rightarrow> AppState \<Rightarrow> nat \<times> AppState" where
  "setInterval cb ms st =
     (nextTimer st,
      st\<lparr>intervals := intervals st @ [(nextTimer st, fst cb, snd cb, ms)],
         nextTimer := Suc (nextTimer st)\<rparr>)"

subsection \<open>updateItem\<close>

text \<open>
  \<open>setItems((prev) => prev.map((it) => (it.id === id ? updater(it) : it)))\<close>: the map
  over the list, and the state update that carries it.
\<close>

definition updateItem_list :: "string \<Rightarrow> (UploadItem \<Rightarrow> UploadItem) \<Rightarrow> UploadItem list \<Rightarrow> UploadItem list" where
  "updateItem_list i updater prev = map (\<lambda>it. if item_id it = i then updater it else it) prev"

definition updateItem :: "string \<Rightarrow> (UploadItem \<Rightarrow> UploadItem) \<Rightarrow> AppState \<Rightarrow> AppState" where
  "updateItem i updater st = st\<lparr>items := updateItem_list i updater (items st)\<rparr>"

subsection \<open>Selecting files\<close>

text \<open>
  \<open>handleFilesSelected\<close> with a non-null file list \<open>all\<close>, followed by the effect that
  rebuilds the items when \<open>files\<close> changes; \<open>now\<close> is the value of \<open>Date.now()\<close> there.
\<close>

definition newItems :: "nat \<Rightarrow> File list \<Rightarrow> UploadItem list" where
  "newItems now fs =
     map (\<lambda>(idx, f).
            \<lparr>item_id = string_of_nat now @ ''-'' @ string_of_nat idx @ ''-'' @ name f,
             item_file = f, title = name f, progressPercent = 0, stage = Pending,
             statusText = ''Pending'', videoId = None, errorMessage = None\<rparr>)
         (enumerate 0 fs)"

definition handleFilesSelected :: "File list \<Rightarrow> nat \<Rightarrow> AppState \<Rightarrow> AppState" where
  "handleFilesSelected all now st =
     (let w = (if length all > MAX_FILES
               then ''You selected '' @ string_of_nat (length all) @ '' files. Only the first ''
                    @ string_of_nat MAX_FILES @ '' will be used.''
               else []);
          selected = take MAX_FILES all
      in st\<lparr>warning := w, files := selected, items := newItems now selected\<rparr>)"

subsection \<open>pollVideoStatus\<close>

text \<open>
  The synchronous part of \<open>pollVideoStatus\<close>: cancel the interval registered for the
  item, if any, start the first run (which only issues its request), create the new
  interval and register it.
\<close>

definition intervalMs :: nat where
  "intervalMs = 10000"

definition pollVideoStatus :: "string \<Rightarrow> string \<Rightarrow> AppState \<Rightarrow> AppState" where
  "pollVideoStatus itemId vid st =
     (let st1 = (case map_of (pollTimers st) itemId of
                   Some existing \<Rightarrow> if existing \<noteq> 0 then clearInterval existing st else st
                 | None \<Rightarrow> st);
          (timerId, st2) = setInterval (itemId, vid) intervalMs st1
      in st2\<lparr>pollTimers := AList.update itemId timerId (pollTimers st2)\<rparr>)"

definition doneStatuses :: "string list" where
  "doneStatuses = [''encoded'', ''ready'', ''finished'', ''complete'', ''completed'']"

definition errorStatuses :: "string list" where
  "errorStatuses = [''failed'', ''error'']"

text \<open>
  \<open>(data.status || data.encodingStatus || '').toString()\<close> for a response body
  \<open>data\<close> of any kind (\<open>res.data as any\<close>): reading \<open>data.status\<close> throws when the
  body is \<open>undefined\<close> or \<open>null\<close>, and the method call throws for an object with an
  own property \<open>toString\<close>. Then \<open>status || 'processing'\<close>.
\<close>

definition status_string :: "engine \<Rightarrow> jsval option \<Rightarrow> js_throw + string" where
  "status_string eng data =
     (case data of
        None \<Rightarrow> Inl (CannotReadProperty None ''status'')
      | Some d \<Rightarrow>
          if d = JNull then Inl (CannotReadProperty (Some JNull) ''status'')
          else js_toString_call eng
                 (js_or_val (js_or (js_get d ''status'') (js_get d ''encodingStatus'')) (JStr [])))"

definition normalized_status :: "engine \<Rightarrow> jsval option \<Rightarrow> js_throw + string" where
  "normalized_status eng data =
     (case status_string eng data of
        Inl t \<Rightarrow> Inl t
      | Inr status \<Rightarrow> Inr (if status \<noteq> [] then status else ''processing''))"

text \<open>
  The three statements both terminal branches of \<open>run\<close> end with:
  \<open>const t = pollTimersRef.current.get(itemId); if (t) window.clearInterval(t);
  pollTimersRef.current.delete(itemId);\<close>
\<close>

definition stop_timer :: "string \<Rightarrow> AppState \<Rightarrow> AppState" where
  "stop_timer itemId st =
     (let st1 = (case map_of (pollTimers st) itemId of
                   Some t \<Rightarrow> if t \<noteq> 0 then clearInterval t st else st
                 | None \<Rightarrow> st)
      in st1\<lparr>pollTimers := AList.delete itemId (pollTimers st1)\<rparr>)"

text \<open>
  The rest of \<open>run\<close> once the request has settled. \<open>run_rejected\<close> is the \<open>catch\<close>
  block, with the value that was thrown; when \<open>extractAxiosError\<close> throws there, the
  promise of \<open>run\<close> is rejected and no state is written. \<open>run_resolved\<close> is the
  \<open>try\<close> block after the \<open>await\<close>, with the response body \<open>data\<close>; a \<open>TypeError\<close>
  thrown while the status is computed, which is before the first state update, is
  caught by the same \<open>catch\<close> block.
\<close>

definition run_rejected :: "engine \<Rightarrow> string \<Rightarrow> AxiosError \<Rightarrow> AppState \<Rightarrow> AppState" where
  "run_rejected eng itemId err st =
     (case extractAxiosError eng err of
        Inl t \<Rightarrow> st
      | Inr m \<Rightarrow> updateItem itemId (\<lambda>prev. prev\<lparr>statusText := ''Poll error: '' @ m\<rparr>) st)"

definition run_resolved :: "engine \<Rightarrow> string \<Rightarrow> jsval option \<Rightarrow> AppState \<Rightarrow> AppState" where
  "run_resolved eng itemId data st =
     (case normalized_status eng data of
        Inl t \<Rightarrow> run_rejected eng itemId (thrown eng t) st
      | Inr normalized \<Rightarrow>
          (let st1 = updateItem itemId (\<lambda>prev. prev\<lparr>statusText := normalized\<rparr>) st
           in if toLowerCase normalized \<in> set doneStatuses
              then stop_timer itemId (updateItem itemId (\<lambda>prev. prev\<lparr>stage := Done\<rparr>) st1)
              else if toLowerCase normalized \<in> set errorStatuses
              then stop_timer itemId
                     (updateItem itemId
                        (\<lambda>prev. prev\<lparr>stage := Error,
                                     errorMessage := Some (''Encoding '' @ normalized)\<rparr>) st1)
              else st1))"

text \<open>
  An interval timer that fires calls \<open>run\<close>, which issues the status request for the
  video it has captured and changes no state before the request settles. The result is
  the item and the video of the request issued and the time in milliseconds until the
  timer fires again, \<open>None\<close> when the handle is not active.
\<close>

definition timer_fires :: "nat \<Rightarrow> AppState \<Rightarrow> (string \<times> string \<times> nat) option" where
  "timer_fires h st = map_of (intervals st) h"

subsection \<open>startUploads and the pipeline of one item\<close>

definition canUpload :: "AppState \<Rightarrow> bool" where
  "canUpload st = (length (trim (token st)) > 0 \<and> length (items st) > 0 \<and> \<not> isUploading st)"

text \<open>How a promise settles: fulfilled, or rejected with what was thrown.\<close>

datatype settled = Fulfilled | Rejected js_throw

text \<open>
  \<open>await Promise.all(...)\<close> inside \<open>try { ... } finally { setIsUploading(false) }\<close>:
  the aggregate is fulfilled when the last promise it waits for is fulfilled and is
  rejected as soon as one of them is rejected; either way the \<open>finally\<close> block runs
  then. After a rejection nothing waits for the other promises any more.
\<close>

definition promise_settles :: "string \<Rightarrow> settled \<Rightarrow> AppState \<Rightarrow> AppState" where
  "promise_settles i r st =
     (if i \<notin> set (awaited st) then st
      else case r of
             Rejected e \<Rightarrow> st\<lparr>awaited := [], isUploading := False\<rparr>
           | Fulfilled \<Rightarrow>
               (let rest = remove1 i (awaited st)
                in if rest = [] then st\<lparr>awaited := [], isUploading := False\<rparr>
                   else st\<lparr>awaited := rest\<rparr>))"

text \<open>
  The callback of \<open>items.map\<close> runs up to its first \<open>await\<close> for every item in turn;
  \<open>startUploads\<close> then waits for the promises of all of them.
\<close>

definition item_start :: "UploadItem \<Rightarrow> AppState \<Rightarrow> AppState" where
  "item_start item st =
     updateItem (item_id item)
       (\<lambda>prev. prev\<lparr>stage := Creating, statusText := ''Creating video'' @ ellipsis\<rparr>) st"

definition startUploads :: "AppState \<Rightarrow> AppState" where
  "startUploads st =
     (if \<not> canUpload st then st
      else (fold item_start (items st) (st\<lparr>isUploading := True\<rparr>))
             \<lparr>awaited := map item_id (items st)\<rparr>)"

text \<open>
  The \<open>catch\<close> block of the callback, which ends the callback: its promise is
  fulfilled after the update, or rejected, with no update, when \<open>extractAxiosError\<close>
  throws.
\<close>

definition item_catch :: "engine \<Rightarrow> string \<Rightarrow> AxiosError \<Rightarrow> AppState \<Rightarrow> settled \<times> AppState" where
  "item_catch eng i err st =
     (case extractAxiosError eng err of
        Inl t \<Rightarrow> (Rejected t, st)
      | Inr m \<Rightarrow>
          (Fulfilled,
           updateItem i
             (\<lambda>prev. prev\<lparr>stage := Error, errorMessage := Some m, statusText := ''Error''\<rparr>) st))"

text \<open>
  The callback from \<open>await createVideo(item)\<close> to the next \<open>await\<close>, and from
  \<open>await uploadToSignedUrl(...)\<close> to its end. The first component is how the
  callback's promise settles in this step, \<open>None\<close> while it is still pending.
\<close>

definition after_create :: "engine \<Rightarrow> string \<Rightarrow> AxiosError + CreateVideoData \<Rightarrow> AppState \<Rightarrow> settled option \<times> AppState" where
  "after_create eng i r st =
     (case r of
        Inl err \<Rightarrow> (Some (fst (item_catch eng i err st)), snd (item_catch eng i err st))
      | Inr d \<Rightarrow>
          (None,
           updateItem i
             (\<lambda>prev. prev\<lparr>videoId := Some (created_videoId d), stage := Uploading,
                          statusText := ''Uploading'' @ ellipsis\<rparr>) st))"

definition after_upload :: "engine \<Rightarrow> string \<Rightarrow> string \<Rightarrow> AxiosError + unit \<Rightarrow> AppState \<Rightarrow> settled option \<times> AppState" where
  "after_upload eng i vid r st =
     (case r of
        Inl err \<Rightarrow> (Some (fst (item_catch eng i err st)), snd (item_catch eng i err st))
      | Inr u \<Rightarrow>
          (Some Fulfilled,
           pollVideoStatus i vid
             (updateItem i (\<lambda>prev. prev\<lparr>stage := Polling\<rparr>)
                (updateItem i
                   (\<lambda>prev. prev\<lparr>stage := Uploaded,
                                statusText := ''Uploaded. Starting to poll'' @ ellipsis,
                                progressPercent := 100\<rparr>) st))))"

text \<open>The \<open>onUploadProgress\<close> callback of \<open>uploadToSignedUrl\<close>.\<close>

definition onUploadProgress :: "string \<Rightarrow> ProgressEvent \<Rightarrow> AppState \<Rightarrow> AppState" where
  "onUploadProgress i evt st =
     (case total_bytes evt of
        None \<Rightarrow> st
      | Some t \<Rightarrow>
          if t = 0 then st
          else updateItem i (\<lambda>prev. prev\<lparr>progressPercent := percent_of (loaded evt) t\<rparr>) st)"

subsection \<open>clearAll\<close>

definition clearAll :: "AppState \<Rightarrow> AppState" where
  "clearAll st =
     (fold (\<lambda>t. clearInterval t) (map snd (pollTimers st)) st)
       \<lparr>pollTimers := [], files := [], items := []\<rparr>"

subsection \<open>Unmounting\<close>

text \<open>The cleanup function of the effect that runs when the component unmounts.\<close>

definition unmount :: "AppState \<Rightarrow> AppState" where
  "unmount st =
     (fold (\<lambda>timerId. clearInterval timerId) (map snd (pollTimers st)) st)\<lparr>pollTimers := []\<rparr>"

section \<open>Runs of the component\<close>

text \<open>
  Between two suspension points the program runs without interruption, so a run of the
  component is a sequence of events, each handled as one step: a user action, or the
  settling of a request that a pipeline or a poll is waiting for. A status request
  settles with the error thrown or with the body of the response.
\<close>

datatype event =
    SetToken "16 word list"
  | FilesSelected "File list" nat
  | StartUploads
  | ClearAll
  | Unmount
  | CreateSettled string "AxiosError + CreateVideoData"
  | UploadProgress string ProgressEvent
  | UploadSettled string string "AxiosError + unit"
  | PollSettled string "AxiosError + jsval option"

definition settle_with :: "string \<Rightarrow> settled option \<times> AppState \<Rightarrow> AppState" where
  "settle_with i p = (case fst p of None \<Rightarrow> snd p | Some r \<Rightarrow> promise_settles i r (snd p))"

fun step :: "engine \<Rightarrow> event \<Rightarrow> AppState \<Rightarrow> AppState" where
  "step eng (SetToken t) st = st\<lparr>token := t\<rparr>"
| "step eng (FilesSelected all now) st = handleFilesSelected all now st"
| "step eng StartUploads st = startUploads st"
| "step eng ClearAll st = clearAll st"
| "step eng Unmount st = unmount st"
| "step eng (CreateSettled i r) st = settle_with i (after_create eng i r st)"
| "step eng (UploadProgress i evt) st = onUploadProgress i evt st"
| "step eng (UploadSettled i vid r) st = settle_with i (after_upload eng i vid r st)"
| "step eng (PollSettled i r) st =
     (case r of Inl err \<Rightarrow> run_rejected eng i err st | Inr data \<Rightarrow> run_resolved eng i data st)"

definition exec :: "engine \<Rightarrow> event list \<Rightarrow> AppState \<Rightarrow> AppState" where
  "exec eng es st = fold (step eng) es st"


text \<open>The active interval timers whose callback polls for a given item.\<close>

definition timers_of :: "string \<Rightarrow> AppState \<Rightarrow> nat list" where
  "timers_of i st = map fst (filter (\<lambda>(h, cb). fst cb = i) (intervals st))"

text \<open>
  The invariant of the timers: the active handles are distinct, positive and below
  \<open>nextTimer\<close>, and every active timer is the one the registry holds for its item.
\<close>

definition timers_inv :: "AppState \<Rightarrow> bool" where
  "timers_inv st \<longleftrightarrow>
     distinct (map fst (intervals st)) \<and> 0 < nextTimer st \<and>
     (\<forall>(h, cb) \<in> set (intervals st).
        0 < h \<and> h < nextTimer st \<and> map_of (pollTimers st) (fst cb) = Some h)"

text \<open>
  The message part of a rendered HTTP failure as the specification describes it, for
  comparison with \<open>extractAxiosError\<close>: the fixed text when the body is absent or
  falsy, else the string conversion of the body's \<open>message\<close>, else of its \<open>error\<close>,
  else the serialized body.
\<close>

definition spec_body_message :: "engine \<Rightarrow> jsval option \<Rightarrow> js_throw + string" where
  "spec_body_message eng data =
     (case data of
        None \<Rightarrow> Inr ''Request failed''
      | Some d \<Rightarrow>
          if \<not> truthy d then Inr ''Request failed''
          else case js_get d ''message'' of
                 Some v \<Rightarrow>
                   if truthy v then js_ToString eng v
                   else (case js_get d ''error'' of
                           Some w \<Rightarrow> if truthy w then js_ToString eng w
                                     else Inr (JSON_stringify eng d)
                         | None \<Rightarrow> Inr (JSON_stringify eng d))
               | None \<Rightarrow>
                   (case js_get d ''error'' of
                      Some w \<Rightarrow> if truthy w then js_ToString eng w
                                else Inr (JSON_stringify eng d)
                    | None \<Rightarrow> Inr (JSON_stringify eng d)))"

text \<open>
  The events that end the pipeline of an item: a failed create request, and the end of
  the upload either way. Such an event rejects the pipeline's promise when it is a
  failure whose rendering throws.
\<close>

fun settles :: "event \<Rightarrow> string option" where
  "settles (CreateSettled i (Inl err)) = Some i"
| "settles (UploadSettled i vid r) = Some i"
| "settles ev = None"

definition settled_ids :: "event list \<Rightarrow> string list" where
  "settled_ids es = List.map_filter settles es"

fun rejects :: "engine \<Rightarrow> event \<Rightarrow> bool" where
  "rejects eng (CreateSettled i (Inl err)) = isl (extractAxiosError eng err)"
| "rejects eng (UploadSettled i vid (Inl err)) = isl (extractAxiosError eng err)"
| "rejects eng ev = False"

text \<open>The busy flag is set exactly while the aggregate still waits for a promise.\<close>

definition busy_inv :: "AppState \<Rightarrow> bool" where
  "busy_inv st \<longleftrightarrow> (isUploading st \<longleftrightarrow> awaited st \<noteq> [])"

section \<open>Sample runs\<close>

text \<open>
  An engine for the sample runs. Its \<open>TypeError\<close> texts are worded as V8 words
  them (the wording differs between engines, and the second one depends on the source
  text of the call). A number is printed as the decimal digits of its integer part,
  which is what every engine prints for an integer below \<open>2 ^ 53\<close>; the samples
  hold no other number.
\<close>

definition sample_engine :: engine where
  "sample_engine =
     \<lparr>Number_toString = (\<lambda>x. string_of_int \<lfloor>x\<rfloor>),
      TypeError_message =
        (\<lambda>t. case t of
                CannotReadProperty v k \<Rightarrow>
                  ''Cannot read properties of ''
                  @ (case v of None \<Rightarrow> ''undefined'' | Some w \<Rightarrow> ''null'')
                  @ '' (reading '' @ [CHR 0x27] @ k @ [CHR 0x27] @ '')''
              | NotAFunction v \<Rightarrow> ''(intermediate value).toString is not a function''
              | CannotConvert v \<Rightarrow> ''Cannot convert object to primitive value'')\<rparr>"

text \<open>
  One file is selected at time 0 and uploaded with the token \<open>secret\<close>: the create
  request succeeds, one progress event arrives, the upload succeeds and polling starts.
\<close>

definition sample_token :: "16 word list" where
  "sample_token = [0x73, 0x65, 0x63, 0x72, 0x65, 0x74]"

definition sample_file :: File where
  "sample_file = \<lparr>name = ''a.mp4'', type = ''video/mp4''\<rparr>"

definition sample_id :: string where
  "sample_id = ''0-0-a.mp4''"

definition sample_upload :: "event list" where
  "sample_upload =
     [SetToken sample_token, FilesSelected [sample_file] 0, StartUploads,
      CreateSettled sample_id (Inr \<lparr>created_videoId = ''v1'', signedUrl = ''https://storage/v1''\<rparr>),
      UploadProgress sample_id \<lparr>loaded = 1, total_bytes = Some 2\<rparr>,
      UploadSettled sample_id ''v1'' (Inr ())]"

definition sample_item :: UploadItem where
  "sample_item =
     \<lparr>item_id = sample_id, item_file = sample_file, title = ''a.mp4'', progressPercent = 100,
      stage = Polling, statusText = ''Uploaded. Starting to poll'' @ ellipsis,
      videoId = Some ''v1'', errorMessage = None\<rparr>"

definition sample_state :: AppState where
  "sample_state =
     \<lparr>token = sample_token, files = [sample_file], items = [sample_item], isUploading = False,
      warning = [], pollTimers = [(sample_id, 1)],
      intervals = [(1, sample_id, ''v1'', 10000)], nextTimer = 2, awaited = []\<rparr>"

text \<open>
  Two files are selected; the create request of the first is refused with HTTP 401 and
  the body \<open>{"message":"invalid token"}\<close>, the second file is uploaded.
\<close>

definition sample_file2 :: File where
  "sample_file2 = \<lparr>name = ''b.mp4'', type = []\<rparr>"

definition sample_selected :: "event list" where
  "sample_selected = [SetToken sample_token, FilesSelected [sample_file, sample_file2] 0]"

definition unauthorized :: AxiosError where
  "unauthorized =
     \<lparr>response = Some \<lparr>response_status = 401,
                        response_data = Some (JObj [(''message'', JStr ''invalid token'')])\<rparr>,
      request = True, message = ''Request failed with status code 401''\<rparr>"

definition sample_outcomes :: "event list" where
  "sample_outcomes =
     [CreateSettled ''0-0-a.mp4'' (Inl unauthorized),
      CreateSettled ''0-1-b.mp4'' (Inr \<lparr>created_videoId = ''v2'', signedUrl = ''https://storage/v2''\<rparr>),
      UploadSettled ''0-1-b.mp4'' ''v2'' (Inr ())]"

text \<open>
  A request that is answered with HTTP 500 and the body \<open>{"message":{"toString":1}}\<close>:
  the \<open>message\<close> of the body is an object with an own property \<open>toString\<close>.
\<close>

definition unprintable :: AxiosError where
  "unprintable =
     \<lparr>response = Some \<lparr>response_status = 500,
                        response_data = Some (JObj [(''message'', JObj [(''toString'', JNum 1)])])\<rparr>,
      request = True, message = ''Request failed with status code 500''\<rparr>"


section \<open>Basic facts\<close>

subsection \<open>updateItem\<close>

lemma updateItem_list_length: "length (updateItem_list i f xs) = length xs"
  by (simp add: updateItem_list_def)

lemma updateItem_list_nth:
  "k < length xs \<Longrightarrow>
   updateItem_list i f xs ! k = (if item_id (xs ! k) = i then f (xs ! k) else xs ! k)"
  by (simp add: updateItem_list_def)

lemma updateItem_list_absent: "i \<notin> item_id ` set xs \<Longrightarrow> updateItem_list i f xs = xs"
  by (induction xs) (auto simp: updateItem_list_def)

lemma updateItem_list_comp:
  "updateItem_list i g (updateItem_list i f xs) = updateItem_list i (g \<circ> f) xs"
  if "\<And>it. item_id (f it) = item_id it"
  using that by (induction xs) (auto simp: updateItem_list_def)

lemma updateItem_list_mem:
  assumes "it \<in> set (updateItem_list i f xs)" and "item_id it = i"
    and "\<And>x. item_id (f x) = item_id x"
  shows "\<exists>x \<in> set xs. item_id x = i \<and> it = f x"
proof -
  from assms(1) obtain x where x: "x \<in> set xs" "it = (if item_id x = i then f x else x)"
    by (auto simp: updateItem_list_def)
  with assms(2,3) have "item_id x = i" by (cases "item_id x = i") simp_all
  with x show ?thesis by auto
qed


lemma updateItem_fields [simp]:
  "pollTimers (updateItem i f st) = pollTimers st"
  "intervals (updateItem i f st) = intervals st"
  "nextTimer (updateItem i f st) = nextTimer st"
  "awaited (updateItem i f st) = awaited st"
  "isUploading (updateItem i f st) = isUploading st"
  "token (updateItem i f st) = token st"
  "files (updateItem i f st) = files st"
  "items (updateItem i f st) = updateItem_list i f (items st)"
  by (simp_all add: updateItem_def)

subsection \<open>The timers and their invariant\<close>

lemma clearInterval_fields [simp]:
  "pollTimers (clearInterval h st) = pollTimers st"
  "intervals (clearInterval h st) = AList.delete h (intervals st)"
  "nextTimer (clearInterval h st) = nextTimer st"
  "awaited (clearInterval h st) = awaited st"
  "isUploading (clearInterval h st) = isUploading st"
  "items (clearInterval h st) = items st"
  by (simp_all add: clearInterval_def)

lemma clearInterval_inactive: "h \<notin> fst ` set (intervals st) \<Longrightarrow> clearInterval h st = st"
  by (simp add: clearInterval_def)

lemma set_delete: "set (AList.delete h xs) = {p \<in> set xs. fst p \<noteq> h}"
  by (auto simp: AList.delete_eq)

lemma stop_timer_fields [simp]:
  "items (stop_timer i st) = items st"
  "nextTimer (stop_timer i st) = nextTimer st"
  "awaited (stop_timer i st) = awaited st"
  "isUploading (stop_timer i st) = isUploading st"
  "pollTimers (stop_timer i st) = AList.delete i (pollTimers st)"
  by (simp_all add: stop_timer_def Let_def split: option.splits)

lemma stop_timer_intervals:
  "intervals (stop_timer i st) =
     (case map_of (pollTimers st) i of
        Some t \<Rightarrow> if t \<noteq> 0 then AList.delete t (intervals st) else intervals st
      | None \<Rightarrow> intervals st)"
  by (simp add: stop_timer_def Let_def split: option.splits)

lemma stop_timer_unregisters: "map_of (pollTimers (stop_timer i st)) i = None"
  by (simp add: delete_conv')

lemma stop_timer_absent: "map_of (pollTimers st) i = None \<Longrightarrow> stop_timer i st = st"
proof -
  assume a: "map_of (pollTimers st) i = None"
  then have "i \<notin> fst ` set (pollTimers st)" by (simp add: map_of_eq_None_iff)
  then have "AList.delete i (pollTimers st) = pollTimers st" by (rule delete_id)
  with a show ?thesis by (simp add: stop_timer_def)
qed

lemma pollVideoStatus_fields [simp]:
  "items (pollVideoStatus i v st) = items st"
  "awaited (pollVideoStatus i v st) = awaited st"
  "isUploading (pollVideoStatus i v st) = isUploading st"
  "nextTimer (pollVideoStatus i v st) = Suc (nextTimer st)"
  "pollTimers (pollVideoStatus i v st) = AList.update i (nextTimer st) (pollTimers st)"
  by (simp_all add: pollVideoStatus_def setInterval_def Let_def split: option.splits)

lemma pollVideoStatus_intervals:
  "intervals (pollVideoStatus i v st) =
     (case map_of (pollTimers st) i of
        Some t \<Rightarrow> if t \<noteq> 0 then AList.delete t (intervals st) else intervals st
      | None \<Rightarrow> intervals st) @ [(nextTimer st, (i, v, intervalMs))]"
  by (simp add: pollVideoStatus_def setInterval_def Let_def split: option.splits)

lemma fold_clearInterval_intervals:
  "intervals (fold (\<lambda>t. clearInterval t) hs st) = filter (\<lambda>p. fst p \<notin> set hs) (intervals st)"
  by (induction hs arbitrary: st) (auto simp: AList.delete_eq intro: filter_cong)

lemma fold_clearInterval_fields [simp]:
  "nextTimer (fold (\<lambda>t. clearInterval t) hs st) = nextTimer st"
  "awaited (fold (\<lambda>t. clearInterval t) hs st) = awaited st"
  "isUploading (fold (\<lambda>t. clearInterval t) hs st) = isUploading st"
  by (induction hs arbitrary: st) auto

lemma fold_item_start_fields [simp]:
  "pollTimers (fold item_start xs st) = pollTimers st"
  "intervals (fold item_start xs st) = intervals st"
  "nextTimer (fold item_start xs st) = nextTimer st"
  "awaited (fold item_start xs st) = awaited st"
  "isUploading (fold item_start xs st) = isUploading st"
  by (induction xs arbitrary: st) (simp_all add: item_start_def)

lemma promise_settles_fields [simp]:
  "items (promise_settles i r st) = items st"
  "pollTimers (promise_settles i r st) = pollTimers st"
  "intervals (promise_settles i r st) = intervals st"
  by (simp_all add: promise_settles_def Let_def split: settled.splits)

lemma timers_inv_init: "timers_inv init_state"
  by (simp add: timers_inv_def init_state_def)

lemma timers_inv_updateItem [simp]: "timers_inv (updateItem i f st) = timers_inv st"
  by (simp add: timers_inv_def)

lemma timers_inv_cong:
  "pollTimers st' = pollTimers st \<Longrightarrow> intervals st' = intervals st \<Longrightarrow>
   nextTimer st' = nextTimer st \<Longrightarrow> timers_inv st' = timers_inv st"
  by (simp add: timers_inv_def)

lemma timers_inv_promise_settles [simp]: "timers_inv (promise_settles i r st) = timers_inv st"
  by (rule timers_inv_cong) (simp_all add: promise_settles_def Let_def split: settled.splits)

lemma timers_inv_stop_timer: "timers_inv st \<Longrightarrow> timers_inv (stop_timer i st)"
proof -
  assume inv: "timers_inv st"
  let ?st' = "stop_timer i st"
  have sub: "set (intervals ?st') \<subseteq> set (intervals st)"
    by (auto simp: stop_timer_intervals set_delete split: option.splits)
  have dist: "distinct (map fst (intervals ?st'))"
    using inv by (auto simp: timers_inv_def stop_timer_intervals distinct_delete split: option.splits)
  have "0 < h \<and> h < nextTimer ?st' \<and> map_of (pollTimers ?st') (fst cb) = Some h"
    if mem: "(h, cb) \<in> set (intervals ?st')" for h cb
  proof -
    from mem sub have old: "(h, cb) \<in> set (intervals st)" by blast
    with inv have h: "0 < h" "h < nextTimer st" "map_of (pollTimers st) (fst cb) = Some h"
      by (auto simp: timers_inv_def)
    have "fst cb \<noteq> i"
    proof
      assume "fst cb = i"
      with h have "map_of (pollTimers st) i = Some h" by simp
      with h(1) have "intervals ?st' = AList.delete h (intervals st)"
        by (simp add: stop_timer_intervals)
      with mem show False by (simp add: set_delete)
    qed
    with h show ?thesis by (simp add: delete_conv')
  qed
  with dist inv show ?thesis by (auto simp: timers_inv_def)
qed

lemma timers_inv_pollVideoStatus: "timers_inv st \<Longrightarrow> timers_inv (pollVideoStatus i v st)"
proof -
  assume inv: "timers_inv st"
  let ?st' = "pollVideoStatus i v st"
  let ?old = "case map_of (pollTimers st) i of
        Some t \<Rightarrow> if t \<noteq> 0 then AList.delete t (intervals st) else intervals st
      | None \<Rightarrow> intervals st"
  have eq: "intervals ?st' = ?old @ [(nextTimer st, (i, v, intervalMs))]"
    by (rule pollVideoStatus_intervals)
  have sub: "set ?old \<subseteq> set (intervals st)"
    by (auto simp: set_delete split: option.splits)
  have fresh: "nextTimer st \<notin> fst ` set (intervals st)"
    using inv by (fastforce simp: timers_inv_def)
  have "distinct (map fst ?old)"
    using inv by (auto simp: timers_inv_def distinct_delete split: option.splits)
  with fresh sub have dist: "distinct (map fst (intervals ?st'))"
    unfolding eq by auto
  have "0 < h \<and> h < nextTimer ?st' \<and> map_of (pollTimers ?st') (fst cb) = Some h"
    if mem: "(h, cb) \<in> set (intervals ?st')" for h cb
  proof (cases "(h, cb) = (nextTimer st, (i, v, intervalMs))")
    case True
    with inv show ?thesis by (simp add: timers_inv_def update_conv')
  next
    case False
    with mem eq have m: "(h, cb) \<in> set ?old" by auto
    with sub have old: "(h, cb) \<in> set (intervals st)" by blast
    with inv have h: "0 < h" "h < nextTimer st" "map_of (pollTimers st) (fst cb) = Some h"
      by (auto simp: timers_inv_def)
    have "fst cb \<noteq> i"
    proof
      assume "fst cb = i"
      with h have "map_of (pollTimers st) i = Some h" by simp
      with h(1) have "?old = AList.delete h (intervals st)" by simp
      with m show False by (simp add: set_delete)
    qed
    with h show ?thesis by (simp add: update_conv')
  qed
  with dist inv show ?thesis by (auto simp: timers_inv_def)
qed

lemma clearAll_intervals: "timers_inv st \<Longrightarrow> intervals (clearAll st) = []"
proof -
  assume inv: "timers_inv st"
  have "fst p \<in> set (map snd (pollTimers st))" if "p \<in> set (intervals st)" for p
  proof -
    obtain h cb where p: "p = (h, cb)" by (cases p)
    with that inv have "map_of (pollTimers st) (fst cb) = Some h" by (auto simp: timers_inv_def)
    then have "(fst cb, h) \<in> set (pollTimers st)" by (rule map_of_SomeD)
    then show ?thesis using p by force
  qed
  then show ?thesis
    by (simp add: clearAll_def fold_clearInterval_intervals filter_empty_conv)
qed

lemma timers_inv_clearAll: "timers_inv st \<Longrightarrow> timers_inv (clearAll st)"
  using clearAll_intervals [of st]
  by (simp add: timers_inv_def) (simp add: clearAll_def)

lemma unmount_timers:
  "intervals (unmount st) = intervals (clearAll st)"
  "pollTimers (unmount st) = []"
  "nextTimer (unmount st) = nextTimer st"
  by (simp_all add: unmount_def clearAll_def)

lemma timers_inv_unmount: "timers_inv st \<Longrightarrow> timers_inv (unmount st)"
  using clearAll_intervals [of st] by (simp add: timers_inv_def unmount_timers)

lemma item_catch_fields [simp]:
  "pollTimers (snd (item_catch eng i err st)) = pollTimers st"
  "intervals (snd (item_catch eng i err st)) = intervals st"
  "nextTimer (snd (item_catch eng i err st)) = nextTimer st"
  "awaited (snd (item_catch eng i err st)) = awaited st"
  "isUploading (snd (item_catch eng i err st)) = isUploading st"
  by (simp_all add: item_catch_def split: sum.splits)

lemma run_rejected_fields [simp]:
  "pollTimers (run_rejected eng i err st) = pollTimers st"
  "intervals (run_rejected eng i err st) = intervals st"
  "nextTimer (run_rejected eng i err st) = nextTimer st"
  "awaited (run_rejected eng i err st) = awaited st"
  "isUploading (run_rejected eng i err st) = isUploading st"
  by (simp_all add: run_rejected_def split: sum.splits)

lemma timers_inv_item_catch [simp]:
  "timers_inv (snd (item_catch eng i err st)) = timers_inv st"
  by (rule timers_inv_cong) simp_all

lemma timers_inv_run_rejected [simp]: "timers_inv (run_rejected eng i err st) = timers_inv st"
  by (rule timers_inv_cong) simp_all

lemma timers_inv_run_resolved: "timers_inv st \<Longrightarrow> timers_inv (run_resolved eng i data st)"
  by (cases "normalized_status eng data")
     (simp_all add: run_resolved_def Let_def timers_inv_stop_timer)

lemma timers_inv_step: "timers_inv st \<Longrightarrow> timers_inv (step eng ev st)"
proof (cases ev)
  case (SetToken t)
  assume "timers_inv st"
  then show ?thesis using SetToken by (simp add: timers_inv_def)
next
  case (FilesSelected all now)
  assume "timers_inv st"
  then show ?thesis using FilesSelected by (simp add: timers_inv_def handleFilesSelected_def Let_def)
next
  case StartUploads
  assume "timers_inv st"
  then show ?thesis using StartUploads by (simp add: timers_inv_def startUploads_def)
next
  case ClearAll
  assume "timers_inv st"
  then show ?thesis using ClearAll by (simp add: timers_inv_clearAll)
next
  case Unmount
  assume "timers_inv st"
  then show ?thesis using Unmount by (simp add: timers_inv_unmount)
next
  case (CreateSettled i r)
  assume "timers_inv st"
  then show ?thesis using CreateSettled
    by (cases r) (simp_all add: settle_with_def after_create_def)
next
  case (UploadProgress i evt)
  assume "timers_inv st"
  then show ?thesis using UploadProgress
    by (simp add: onUploadProgress_def split: option.splits)
next
  case (UploadSettled i vid r)
  assume "timers_inv st"
  then show ?thesis using UploadSettled
    by (cases r) (simp_all add: settle_with_def after_upload_def timers_inv_pollVideoStatus)
next
  case (PollSettled i r)
  assume "timers_inv st"
  then show ?thesis using PollSettled
    by (cases r) (simp_all add: timers_inv_run_resolved)
qed

lemma timers_inv_exec: "timers_inv st \<Longrightarrow> timers_inv (exec eng es st)"
  unfolding exec_def by (induction es arbitrary: st) (simp_all add: timers_inv_step)

lemma timers_inv_reachable: "timers_inv (exec eng es init_state)"
  by (simp add: timers_inv_exec timers_inv_init)

lemma filter_same_key_le_one:
  "distinct (map fst xs) \<Longrightarrow> (\<forall>p \<in> set xs. P p \<longrightarrow> fst p = h0) \<Longrightarrow> length (filter P xs) \<le> 1"
proof (induction xs)
  case Nil
  then show ?case by simp
next
  case (Cons p xs)
  show ?case
  proof (cases "P p")
    case False
    with Cons show ?thesis by simp
  next
    case True
    with Cons.prems have k: "fst p = h0" by simp
    have "\<not> P q" if "q \<in> set xs" for q
    proof
      assume "P q"
      with that Cons.prems(2) have "fst q = h0" by simp
      with k that Cons.prems(1) show False by (metis distinct.simps(2) image_eqI list.simps(9) list.set_map)
    qed
    then have "filter P xs = []" by (simp add: filter_empty_conv)
    with True show ?thesis by simp
  qed
qed

lemma timers_of_le_one: "timers_inv st \<Longrightarrow> length (timers_of i st) \<le> 1"
proof -
  assume inv: "timers_inv st"
  obtain h0 where h0: "h0 = (case map_of (pollTimers st) i of Some h \<Rightarrow> h | None \<Rightarrow> 0)" by simp
  have "\<forall>p \<in> set (intervals st). (case p of (h, cb) \<Rightarrow> fst cb = i) \<longrightarrow> fst p = h0"
    using inv h0 by (auto simp: timers_inv_def)
  moreover have "distinct (map fst (intervals st))"
    using inv by (simp add: timers_inv_def)
  ultimately have "length (filter (\<lambda>(h, cb). fst cb = i) (intervals st)) \<le> 1"
    by (rule filter_same_key_le_one [rotated])
  then show ?thesis by (simp add: timers_of_def)
qed

lemma timers_of_unregistered:
  "timers_inv st \<Longrightarrow> map_of (pollTimers st) i = None \<Longrightarrow> timers_of i st = []"
  by (auto simp: timers_of_def timers_inv_def filter_empty_conv)

lemma timers_of_stop_timer: "timers_inv st \<Longrightarrow> timers_of i (stop_timer i st) = []"
  by (rule timers_of_unregistered) (simp_all add: timers_inv_stop_timer delete_conv')

lemma timers_of_pollVideoStatus:
  assumes "timers_inv st"
  shows "timers_of i (pollVideoStatus i v st) = [nextTimer st]"
proof -
  let ?st' = "pollVideoStatus i v st"
  have inv': "timers_inv ?st'" using assms by (rule timers_inv_pollVideoStatus)
  have "nextTimer st \<in> set (timers_of i ?st')"
    by (simp add: timers_of_def pollVideoStatus_intervals)
  moreover have "length (timers_of i ?st') \<le> 1" using inv' by (rule timers_of_le_one)
  ultimately show ?thesis
    by (cases "timers_of i ?st'") (auto simp: le_Suc_eq)
qed

subsection \<open>A status poll\<close>

lemma extractAxiosError_thrown:
  "extractAxiosError eng (thrown eng t) =
     Inr (if TypeError_message eng t = [] then ''Unknown error'' else TypeError_message eng t)"
  by (simp add: extractAxiosError_def thrown_def)

lemma run_rejected_items:
  "items (run_rejected eng i err st) =
     (case extractAxiosError eng err of
        Inl t \<Rightarrow> items st
      | Inr m \<Rightarrow> updateItem_list i (\<lambda>prev. prev\<lparr>statusText := ''Poll error: '' @ m\<rparr>) (items st))"
  by (simp add: run_rejected_def split: sum.splits)

lemma run_rejected_stage: "map stage (items (run_rejected eng i err st)) = map stage (items st)"
proof -
  have "map stage (updateItem_list i (\<lambda>prev. prev\<lparr>statusText := s\<rparr>) xs) = map stage xs" for s xs
    by (induction xs) (simp_all add: updateItem_list_def)
  then show ?thesis by (simp add: run_rejected_items split: sum.splits)
qed



lemma normalized_status_thrown:
  "normalized_status eng data = Inl t \<longleftrightarrow> status_string eng data = Inl t"
  by (simp add: normalized_status_def split: sum.splits)

lemma normalized_status_returned:
  "normalized_status eng data = Inr n \<longleftrightarrow>
     (\<exists>s. status_string eng data = Inr s \<and> n = (if s = [] then ''processing'' else s))"
  by (auto simp: normalized_status_def split: sum.splits)

lemma status_string_object:
  "status_string eng (Some (JObj kvs)) =
     js_toString_call eng
       (if truthy_opt (map_of kvs ''status'') then the (map_of kvs ''status'')
        else if truthy_opt (map_of kvs ''encodingStatus'') then the (map_of kvs ''encodingStatus'')
        else JStr [])"
  by (auto simp: status_string_def js_or_val_def js_or_def split: option.splits)

lemma status_string_nullish:
  "status_string eng None = Inl (CannotReadProperty None ''status'')"
  "status_string eng (Some JNull) = Inl (CannotReadProperty (Some JNull) ''status'')"
  by (simp_all add: status_string_def)

lemma run_resolved_items:
  "normalized_status eng data = Inr n \<Longrightarrow>
   items (run_resolved eng i data st) =
     updateItem_list i
       (\<lambda>prev. if toLowerCase n \<in> set doneStatuses then prev\<lparr>statusText := n, stage := Done\<rparr>
               else if toLowerCase n \<in> set errorStatuses
               then prev\<lparr>statusText := n, stage := Error, errorMessage := Some (''Encoding '' @ n)\<rparr>
               else prev\<lparr>statusText := n\<rparr>)
       (items st)"
  by (simp add: run_resolved_def Let_def updateItem_list_comp) (simp add: comp_def)

lemma run_resolved_timers:
  "normalized_status eng data = Inr n \<Longrightarrow>
   pollTimers (run_resolved eng i data st) =
     (if toLowerCase n \<in> set doneStatuses \<union> set errorStatuses
      then AList.delete i (pollTimers st) else pollTimers st)"
  "normalized_status eng data = Inr n \<Longrightarrow>
   toLowerCase n \<notin> set doneStatuses \<union> set errorStatuses \<Longrightarrow>
     intervals (run_resolved eng i data st) = intervals st"
  by (simp_all add: run_resolved_def Let_def)

lemma run_resolved_terminal_timers:
  "timers_inv st \<Longrightarrow> normalized_status eng data = Inr n \<Longrightarrow>
   toLowerCase n \<in> set doneStatuses \<union> set errorStatuses \<Longrightarrow>
     timers_of i (run_resolved eng i data st) = []"
  by (auto simp: run_resolved_def Let_def intro!: timers_of_stop_timer)



text \<open>
  A poll check whose body yields a status string \<open>n\<close> (after normalization), in any
  reachable state: every item with the polled id gets \<open>n\<close> as its \<open>statusText\<close>; when
  the lower-casing of \<open>n\<close> is one of the five success words the stage becomes \<open>Done\<close>,
  when it is \<open>failed\<close> or \<open>error\<close> the stage becomes \<open>Error\<close> with the message
  \<open>Encoding\<close> followed by \<open>n\<close>, and otherwise the stage is kept. Items with another
  id are unchanged. In the two terminal cases the registry entry of the item is removed
  and no interval timer of the item stays active; otherwise the registry and the active
  timers are unchanged.
\<close>

lemma poll_check_with_status:
  assumes n: "normalized_status eng data = Inr n"
  shows "let st = exec eng es init_state; st' = run_resolved eng i data st
   in length (items st') = length (items st) \<and>
      (\<forall>k < length (items st).
         items st' ! k =
           (if item_id (items st ! k) \<noteq> i then items st ! k
            else if toLowerCase n \<in> {''encoded'', ''ready'', ''finished'', ''complete'', ''completed''}
            then (items st ! k)\<lparr>statusText := n, stage := Done\<rparr>
            else if toLowerCase n \<in> {''failed'', ''error''}
            then (items st ! k)\<lparr>statusText := n, stage := Error,
                                  errorMessage := Some (''Encoding '' @ n)\<rparr>
            else (items st ! k)\<lparr>statusText := n\<rparr>)) \<and>
      (if toLowerCase n \<in> {''encoded'', ''ready'', ''finished'', ''complete'', ''completed'',
                             ''failed'', ''error''}
       then map_of (pollTimers st') i = None \<and> timers_of i st' = []
       else pollTimers st' = pollTimers st \<and> intervals st' = intervals st)"
proof -
  define st where "st = exec eng es init_state"
  have inv: "timers_inv st" unfolding st_def by (rule timers_inv_reachable)
  have voc: "set doneStatuses = {''encoded'', ''ready'', ''finished'', ''complete'', ''completed''}"
    "set errorStatuses = {''failed'', ''error''}"
    by (simp_all add: doneStatuses_def errorStatuses_def)
  have f: "{''encoded'', ''ready'', ''finished'', ''complete'', ''completed'', ''failed'', ''error''}
           = set doneStatuses \<union> set errorStatuses"
    unfolding voc by (simp add: insert_commute)
  have b: "length (items (run_resolved eng i data st)) = length (items st)"
    by (simp add: run_resolved_items [OF n] updateItem_list_length)
  have c: "items (run_resolved eng i data st) ! k =
           (if item_id (items st ! k) \<noteq> i then items st ! k
            else if toLowerCase n \<in> set doneStatuses
            then (items st ! k)\<lparr>statusText := n, stage := Done\<rparr>
            else if toLowerCase n \<in> set errorStatuses
            then (items st ! k)\<lparr>statusText := n, stage := Error,
                                  errorMessage := Some (''Encoding '' @ n)\<rparr>
            else (items st ! k)\<lparr>statusText := n\<rparr>)" if "k < length (items st)" for k
    using that by (simp add: run_resolved_items [OF n] updateItem_list_nth)
  have d: "map_of (pollTimers (run_resolved eng i data st)) i = None \<and>
           timers_of i (run_resolved eng i data st) = []"
    if "toLowerCase n \<in> set doneStatuses \<union> set errorStatuses"
    using that inv
    by (simp add: run_resolved_timers(1) [OF n] run_resolved_terminal_timers [OF _ n] delete_conv')
  have e: "pollTimers (run_resolved eng i data st) = pollTimers st \<and>
           intervals (run_resolved eng i data st) = intervals st"
    if "toLowerCase n \<notin> set doneStatuses \<union> set errorStatuses"
    using that by (simp add: run_resolved_timers [OF n])
  show ?thesis
    unfolding Let_def st_def [symmetric] f
    unfolding voc [symmetric]
  proof (intro conjI allI impI)
    show "length (items (run_resolved eng i data st)) = length (items st)" by (rule b)
    show "items (run_resolved eng i data st) ! k =
           (if item_id (items st ! k) \<noteq> i then items st ! k
            else if toLowerCase n \<in> set doneStatuses
            then (items st ! k)\<lparr>statusText := n, stage := Done\<rparr>
            else if toLowerCase n \<in> set errorStatuses
            then (items st ! k)\<lparr>statusText := n, stage := Error,
                                  errorMessage := Some (''Encoding '' @ n)\<rparr>
            else (items st ! k)\<lparr>statusText := n\<rparr>)" if "k < length (items st)" for k
      using that by (rule c)
    show "if toLowerCase n \<in> set doneStatuses \<union> set errorStatuses
       then map_of (pollTimers (run_resolved eng i data st)) i = None \<and> timers_of i (run_resolved eng i data st) = []
       else pollTimers (run_resolved eng i data st) = pollTimers st \<and> intervals (run_resolved eng i data st) = intervals st"
      using d e by (cases "toLowerCase n \<in> set doneStatuses \<union> set errorStatuses") simp_all
  qed
qed

text \<open>
  Any number of consecutive failed status requests for an item, from any state: the
  stage of every item is what it was, and the registry and the active interval timers
  are unchanged, so each timer still issues its request when it fires. A failure that
  is rendered as \<open>m\<close> leaves the poll-error text as the \<open>statusText\<close> of the items
  with the polled id and changes nothing else.
\<close>

lemma poll_failures_keep_polling:
  "let st' = exec eng (map (\<lambda>err. PollSettled i (Inl err)) errs) st
   in map stage (items st') = map stage (items st) \<and>
      pollTimers st' = pollTimers st \<and> intervals st' = intervals st \<and>
      timer_fires h st' = timer_fires h st"
proof (induction errs arbitrary: st)
  case Nil
  then show ?case by (simp add: exec_def)
next
  case (Cons e errs)
  have "exec eng (map (\<lambda>err. PollSettled i (Inl err)) (e # errs)) st
          = exec eng (map (\<lambda>err. PollSettled i (Inl err)) errs) (run_rejected eng i e st)"
    by (simp add: exec_def)
  with Cons.IH [of "run_rejected eng i e st"] show ?case
    by (simp add: Let_def run_rejected_stage timer_fires_def)
qed

lemma poll_failure_rendered:
  "extractAxiosError eng err = Inr m \<Longrightarrow>
   step eng (PollSettled i (Inl err)) st =
     updateItem i (\<lambda>prev. prev\<lparr>statusText := ''Poll error: '' @ m\<rparr>) st"
  by (simp add: run_rejected_def)

subsection \<open>The pipelines and the aggregate promise\<close>

lemma promise_fulfilled_awaited:
  "awaited (promise_settles i Fulfilled st) = remove1 i (awaited st)"
  by (simp add: promise_settles_def Let_def remove1_idem)

lemma busy_inv_promise_settles: "busy_inv st \<Longrightarrow> busy_inv (promise_settles i r st)"
  by (cases r) (auto simp: busy_inv_def promise_settles_def Let_def)

lemma item_catch_outcome:
  "fst (item_catch eng i err st) =
     (case extractAxiosError eng err of Inl t \<Rightarrow> Rejected t | Inr m \<Rightarrow> Fulfilled)"
  by (simp add: item_catch_def split: sum.splits)

lemma item_catch_rendered:
  "extractAxiosError eng err = Inr m \<Longrightarrow>
   item_catch eng i err st =
     (Fulfilled,
      updateItem i (\<lambda>prev. prev\<lparr>stage := Error, errorMessage := Some m, statusText := ''Error''\<rparr>) st)"
  by (simp add: item_catch_def)

lemma after_create_outcome:
  "fst (after_create eng i r st) =
     (case r of Inl err \<Rightarrow> Some (fst (item_catch eng i err st)) | Inr d \<Rightarrow> None)"
  by (simp add: after_create_def split: sum.splits)

lemma after_upload_outcome:
  "fst (after_upload eng i vid r st) =
     Some (case r of Inl err \<Rightarrow> fst (item_catch eng i err st) | Inr u \<Rightarrow> Fulfilled)"
  by (simp add: after_upload_def split: sum.splits)

lemma after_fields [simp]:
  "awaited (snd (after_create eng i r st)) = awaited st"
  "isUploading (snd (after_create eng i r st)) = isUploading st"
  "awaited (snd (after_upload eng i vid r' st)) = awaited st"
  "isUploading (snd (after_upload eng i vid r' st)) = isUploading st"
  by (simp_all add: after_create_def after_upload_def split: sum.splits)

lemma clearAll_fields [simp]:
  "awaited (clearAll st) = awaited st" "isUploading (clearAll st) = isUploading st"
  "awaited (unmount st) = awaited st" "isUploading (unmount st) = isUploading st"
  by (simp_all add: clearAll_def unmount_def)

lemma run_resolved_fields [simp]:
  "awaited (run_resolved eng i data st) = awaited st"
  "isUploading (run_resolved eng i data st) = isUploading st"
  by (cases "normalized_status eng data"; simp add: run_resolved_def Let_def)+

lemma step_awaited:
  "ev \<noteq> StartUploads \<Longrightarrow> \<not> rejects eng ev \<Longrightarrow>
   awaited (step eng ev st) =
     (case settles ev of Some i \<Rightarrow> remove1 i (awaited st) | None \<Rightarrow> awaited st)"
proof (cases ev)
  case (CreateSettled i r)
  assume "\<not> rejects eng ev"
  then show ?thesis using CreateSettled
    by (cases r)
       (auto simp: settle_with_def after_create_outcome item_catch_outcome
          promise_fulfilled_awaited split: sum.splits)
next
  case (UploadSettled i vid r)
  assume "\<not> rejects eng ev"
  then show ?thesis using UploadSettled
    by (cases r)
       (auto simp: settle_with_def after_upload_outcome item_catch_outcome
          promise_fulfilled_awaited split: sum.splits)
next
  case (PollSettled i r)
  then show ?thesis by (cases r) simp_all
qed (simp_all add: handleFilesSelected_def Let_def onUploadProgress_def split: option.splits)

lemma busy_inv_cong:
  "awaited st' = awaited st \<Longrightarrow> isUploading st' = isUploading st \<Longrightarrow> busy_inv st' = busy_inv st"
  by (simp add: busy_inv_def)

lemma busy_inv_step: "busy_inv st \<Longrightarrow> busy_inv (step eng ev st)"
proof (cases ev)
  case StartUploads
  assume "busy_inv st"
  then show ?thesis using StartUploads
    by (auto simp: busy_inv_def startUploads_def canUpload_def)
next
  case (CreateSettled i r)
  assume b: "busy_inv st"
  have "busy_inv (snd (after_create eng i r st))" using b by (simp add: busy_inv_def)
  then show ?thesis using CreateSettled
    by (cases r) (simp_all add: settle_with_def after_create_outcome busy_inv_promise_settles)
next
  case (UploadSettled i vid r)
  assume b: "busy_inv st"
  have "busy_inv (snd (after_upload eng i vid r st))" using b by (simp add: busy_inv_def)
  then show ?thesis using UploadSettled
    by (simp add: settle_with_def after_upload_outcome busy_inv_promise_settles)
next
  case (PollSettled i r)
  assume "busy_inv st"
  then show ?thesis using PollSettled by (cases r) (simp_all add: busy_inv_def)
qed (simp_all add: busy_inv_def handleFilesSelected_def Let_def onUploadProgress_def split: option.splits)

lemma busy_inv_exec: "busy_inv st \<Longrightarrow> busy_inv (exec eng es st)"
  unfolding exec_def by (induction es arbitrary: st) (simp_all add: busy_inv_step)

lemma exec_awaited:
  "StartUploads \<notin> set es \<Longrightarrow> \<forall>ev \<in> set es. \<not> rejects eng ev \<Longrightarrow>
   mset (awaited (exec eng es st)) = mset (awaited st) - mset (settled_ids es)"
proof (induction es arbitrary: st)
  case Nil
  then show ?case by (simp add: exec_def settled_ids_def)
next
  case (Cons ev es)
  then have ev: "ev \<noteq> StartUploads" "\<not> rejects eng ev"
    and es: "StartUploads \<notin> set es" "\<forall>ev \<in> set es. \<not> rejects eng ev" by auto
  have "mset (awaited (exec eng (ev # es) st))
          = mset (awaited (step eng ev st)) - mset (settled_ids es)"
    using Cons.IH [OF es, of "step eng ev st"] by (simp add: exec_def)
  then show ?case
    by (cases "settles ev")
       (simp_all add: step_awaited [OF ev] settled_ids_def)
qed

lemma fold_item_start_items:
  "items (fold item_start xs st) =
     map (\<lambda>it. if item_id it \<in> item_id ` set xs
               then it\<lparr>stage := Creating, statusText := ''Creating video'' @ ellipsis\<rparr> else it)
         (items st)"
proof (induction xs arbitrary: st)
  case Nil
  then show ?case by simp
next
  case (Cons x xs)
  have "items (item_start x st) =
          updateItem_list (item_id x)
            (\<lambda>prev. prev\<lparr>stage := Creating, statusText := ''Creating video'' @ ellipsis\<rparr>)
            (items st)"
    by (simp add: item_start_def)
  then show ?case
    by (simp add: Cons.IH updateItem_list_def)
qed

lemma startUploads_items:
  "canUpload st \<Longrightarrow>
   items (startUploads st) =
     map (\<lambda>it. it\<lparr>stage := Creating, statusText := ''Creating video'' @ ellipsis\<rparr>) (items st)"
  by (simp add: startUploads_def fold_item_start_items)

lemma settle_step_stage:
  assumes "settles ev = Some i" and "\<not> rejects eng ev"
    and "it \<in> set (items (step eng ev s))" and "item_id it = i"
  shows "stage it = Polling \<or> stage it = Error"
proof (cases ev)
  case (CreateSettled j r)
  with assms(1) obtain err where r: "r = Inl err" and j: "j = i" by (cases r) simp_all
  from assms(2) obtain m where m: "extractAxiosError eng err = Inr m"
    by (cases "extractAxiosError eng err") (simp_all add: CreateSettled r)
  from assms(3) have "it \<in> set (updateItem_list i
       (\<lambda>prev. prev\<lparr>stage := Error, errorMessage := Some m, statusText := ''Error''\<rparr>) (items s))"
    by (simp add: CreateSettled r j settle_with_def after_create_def item_catch_rendered [OF m])
  from updateItem_list_mem [OF this assms(4)] show ?thesis by auto
next
  case (UploadSettled j vid r)
  with assms(1) have j: "j = i" by simp
  show ?thesis
  proof (cases r)
    case (Inl err)
    from assms(2) obtain m where m: "extractAxiosError eng err = Inr m"
      by (cases "extractAxiosError eng err") (simp_all add: UploadSettled Inl)
    from assms(3) have "it \<in> set (updateItem_list i
       (\<lambda>prev. prev\<lparr>stage := Error, errorMessage := Some m, statusText := ''Error''\<rparr>) (items s))"
      by (simp add: UploadSettled Inl j settle_with_def after_upload_def item_catch_rendered [OF m])
    from updateItem_list_mem [OF this assms(4)] show ?thesis by auto
  next
    case (Inr u)
    from assms(3) have "it \<in> set (updateItem_list i (\<lambda>prev. prev\<lparr>stage := Polling\<rparr>)
        (updateItem_list i
           (\<lambda>prev. prev\<lparr>stage := Uploaded, statusText := ''Uploaded. Starting to poll'' @ ellipsis,
                        progressPercent := 100\<rparr>) (items s)))"
      by (simp add: UploadSettled Inr j settle_with_def after_upload_def)
    from updateItem_list_mem [OF this assms(4)] show ?thesis by auto
  qed
qed (use assms(1) in simp_all)

subsection \<open>Rendering a transport error\<close>

lemma string_of_nat_nonempty: "string_of_nat n \<noteq> []"
  by (subst string_of_nat.simps) simp

lemma string_of_int_nonempty: "string_of_int n \<noteq> []"
  by (simp add: string_of_int_def string_of_nat_nonempty)

lemma JSON_stringify_nonempty:
  "(\<And>x. Number_toString eng x \<noteq> []) \<Longrightarrow> JSON_stringify eng d \<noteq> []"
  by (cases d) (simp_all add: JSON_quote_def)

lemma extractAxiosError_response:
  assumes "\<And>x. Number_toString eng x \<noteq> []" and "response err = Some r"
  shows "extractAxiosError eng err =
     (case spec_body_message eng (response_data r) of
        Inl t \<Rightarrow> Inl t
      | Inr m \<Rightarrow> Inr (string_of_nat (unat (response_status r)) @ '': '' @ m))"
proof (cases "response_data r")
  case None
  with assms(2) show ?thesis
    by (simp add: extractAxiosError_def spec_body_message_def js_or_val_def)
next
  case (Some d)
  have ne: "JSON_stringify eng d \<noteq> []" using assms(1) by (rule JSON_stringify_nonempty)
  show ?thesis
  proof (cases "truthy d")
    case False
    with Some assms(2) show ?thesis
      by (simp add: extractAxiosError_def spec_body_message_def js_or_val_def js_and_def)
  next
    case True
    with Some assms(2) ne show ?thesis
      by (simp add: extractAxiosError_def spec_body_message_def js_or_val_def js_and_def js_or_def
            split: option.splits)
  qed
qed

lemma extractAxiosError_nonempty: "extractAxiosError eng err = Inr m \<Longrightarrow> m \<noteq> []"
  by (auto simp: extractAxiosError_def Let_def split: option.splits sum.splits if_splits)

text \<open>
  A failure of the create request or of the upload that is rendered as \<open>m\<close> runs the
  \<open>catch\<close> block to its end and fulfils the pipeline promise: every item with the id
  gets stage \<open>Error\<close>, the text \<open>m\<close> (never empty) as its \<open>errorMessage\<close> and the
  caption \<open>Error\<close>; the \<open>videoId\<close> of every item is what it was, the items with
  another id are unchanged, and so are the registry and the timers.
\<close>

lemma pipeline_failure_rendered:
  assumes "extractAxiosError eng err = Inr m"
  shows "let p = after_create eng i (Inl err) st; q = after_upload eng i vid (Inl err) st;
             st' = snd p
   in q = p \<and> fst p = Some Fulfilled \<and> m \<noteq> [] \<and>
      length (items st') = length (items st) \<and>
      (\<forall>k < length (items st).
         items st' ! k =
           (if item_id (items st ! k) = i
            then (items st ! k)\<lparr>stage := Error, errorMessage := Some m, statusText := ''Error''\<rparr>
            else items st ! k) \<and>
         videoId (items st' ! k) = videoId (items st ! k)) \<and>
      pollTimers st' = pollTimers st \<and> intervals st' = intervals st"
  using extractAxiosError_nonempty [OF assms]
  by (simp add: after_create_def after_upload_def item_catch_rendered [OF assms] Let_def
        updateItem_list_length updateItem_list_nth)

text \<open>
  \<open>startUploads\<close> in a state where uploading is allowed sets the busy flag, puts every
  item into stage \<open>Creating\<close> and waits for one promise per item. After any further
  events other than a new \<open>startUploads\<close>, none of them a failure whose rendering
  throws, the busy flag is still set exactly when some awaited promise has not been
  settled by a failed create or by the end of an upload; the outcomes of status polls
  play no part. The step that settles the promise of an item leaves every item with
  that id in stage \<open>Polling\<close> or \<open>Error\<close>.
\<close>

lemma orchestration_when_failures_render:
  assumes "canUpload st" and "StartUploads \<notin> set es" and "\<forall>ev \<in> set es. \<not> rejects eng ev"
  shows "let st1 = startUploads st; st' = exec eng es st1
         in isUploading st1 \<and> awaited st1 = map item_id (items st) \<and>
            items st1 =
              map (\<lambda>it. it\<lparr>stage := Creating, statusText := ''Creating video'' @ ellipsis\<rparr>)
                (items st) \<and>
            (isUploading st' \<longleftrightarrow> \<not> mset (map item_id (items st)) \<subseteq># mset (settled_ids es)) \<and>
            (\<forall>ev i s. settles ev = Some i \<and> \<not> rejects eng ev \<longrightarrow>
               (\<forall>it \<in> set (items (step eng ev s)).
                  item_id it = i \<longrightarrow> stage it = Polling \<or> stage it = Error))"
proof -
  define st1 where "st1 = startUploads st"
  have a: "isUploading st1" "awaited st1 = map item_id (items st)"
    using assms(1) by (simp_all add: st1_def startUploads_def)
  have b: "busy_inv st1"
    using assms(1) a by (simp add: busy_inv_def canUpload_def)
  have "busy_inv (exec eng es st1)" using b by (rule busy_inv_exec)
  moreover have "mset (awaited (exec eng es st1))
      = mset (map item_id (items st)) - mset (settled_ids es)"
    using exec_awaited [OF assms(2,3), of st1] a by simp
  ultimately have c: "isUploading (exec eng es st1) \<longleftrightarrow>
      \<not> mset (map item_id (items st)) \<subseteq># mset (settled_ids es)"
    by (metis busy_inv_def mset_zero_iff Diff_eq_empty_iff_mset)
  show ?thesis
    unfolding Let_def st1_def [symmetric]
    using a c settle_step_stage startUploads_items [OF assms(1)]
    unfolding st1_def [symmetric] by blast
qed

subsection \<open>Rounding to double precision\<close>

lemma round_half_even_of_int [simp]: "round_half_even (of_int n) = n"
  by (simp add: round_half_even_def)













text \<open>One tenth is not a double; the nearest one is \<open>3602879701896397 / 2 ^ 55\<close>.\<close>

lemma to_double_tenth: "to_double (1 / 10) = 3602879701896397 / 2 ^ 55"
  by code_simp



text \<open>
  The percentage is the one double arithmetic gives: for 29 bytes of 200 the quotient
  is the double just below 0.145, its product with 100 is the double just below 14.5,
  and the result is 14, where rounding the exact value 14.5 would give 15.
\<close>

lemma percent_of_29_200:
  "percent_of 29 200 = 14 \<and> \<lfloor>(29 / 200 * 100 + 1 / 2 :: rat)\<rfloor> = 15"
  by code_simp




subsection \<open>The progress callbacks of an upload\<close>



subsection \<open>The sample runs\<close>

lemma sample_state_reached: "exec sample_engine sample_upload init_state = sample_state"
  by code_simp

lemma sample_ready:
  "normalized_status eng (Some (JObj [(''status'', JStr ''Ready'')])) = Inr ''Ready''"
  by (simp add: normalized_status_def status_string_def js_or_val_def js_or_def
        js_toString_call_def)

lemma lower_ready: "toLowerCase ''Ready'' = ''ready''"
  by code_simp

lemma sample_selected_can: "canUpload (exec sample_engine sample_selected init_state)"
  by code_simp

lemma sample_engine_numbers: "Number_toString sample_engine x \<noteq> []"
  by (simp add: sample_engine_def string_of_int_nonempty)

text \<open>The rendering of the failure \<open>unprintable\<close> throws in every engine.\<close>

lemma unprintable_throws:
  "extractAxiosError eng unprintable = Inl (CannotConvert (JObj [(''toString'', JNum 1)]))"
  by (simp add: extractAxiosError_def unprintable_def js_or_val_def js_and_def js_or_def)

lemma unprintable_rejects:
  "rejects eng (CreateSettled i (Inl unprintable))"
  "rejects eng (UploadSettled i vid (Inl unprintable))"
  by (simp_all add: unprintable_throws)

section \<open>The claims\<close>

subsection \<open>C1\<close>

text \<open>
  C1. A status request is answered with the body \<open>null\<close> while the item of the
  sample run is being polled. Reading \<open>data.status\<close> throws, the \<open>catch\<close> block of
  \<open>run\<close> takes over, and the \<open>statusText\<close> of the item becomes the poll-error text
  of the \<open>TypeError\<close> instead of \<open>processing\<close>; the stage stays \<open>Polling\<close> and the
  timer stays active. The same happens for a body whose \<open>status\<close> is an object with
  an own property \<open>toString\<close>, such as \<open>{"status":{"toString":1}}\<close>. A body without
  the two fields that is not \<open>null\<close>, such as \<open>{}\<close>, does give \<open>processing\<close>.
\<close>

theorem poll_of_null_body:
  "normalized_status sample_engine (Some JNull) = Inl (CannotReadProperty (Some JNull) ''status'') \<and>
   map statusText (items (step sample_engine (PollSettled sample_id (Inr (Some JNull))) sample_state))
     = [''Poll error: Cannot read properties of null (reading ''
        @ [CHR 0x27] @ ''status'' @ [CHR 0x27] @ '')''] \<and>
   map stage (items (step sample_engine (PollSettled sample_id (Inr (Some JNull))) sample_state))
     = [Polling] \<and>
   timers_of sample_id (step sample_engine (PollSettled sample_id (Inr (Some JNull))) sample_state)
     = [1] \<and>
   map statusText
     (items (step sample_engine
        (PollSettled sample_id (Inr (Some (JObj [(''status'', JObj [(''toString'', JNum 1)])]))))
        sample_state))
     = [''Poll error: (intermediate value).toString is not a function''] \<and>
   map statusText (items (step sample_engine (PollSettled sample_id (Inr (Some (JObj [])))) sample_state))
     = [''processing'']"
  by code_simp

subsection \<open>C2\<close>

text \<open>
  C2. While the item of the sample run is being polled, a status request fails
  with HTTP 500 and the body \<open>{"message":{"toString":1}}\<close>. The template literal of
  \<open>extractAxiosError\<close> throws inside the \<open>catch\<close> block of \<open>run\<close>, so the state
  is left as it was: the \<open>statusText\<close> is still the caption of the upload and no
  poll-error text is written. The stage is still \<open>Polling\<close> and the timer is still
  active.
\<close>

theorem poll_failure_without_annotation:
  "extractAxiosError sample_engine unprintable = Inl (CannotConvert (JObj [(''toString'', JNum 1)])) \<and>
   step sample_engine (PollSettled sample_id (Inl unprintable)) sample_state = sample_state \<and>
   map statusText (items sample_state) = [''Uploaded. Starting to poll'' @ ellipsis] \<and>
   map stage (items sample_state) = [Polling] \<and>
   timer_fires 1 sample_state = Some (sample_id, ''v1'', 10000)"
  by code_simp

subsection \<open>C3\<close>

text \<open>
  C3. Two files are selected and Upload All is pressed; the create request of
  the first item fails with HTTP 500 and the body \<open>{"message":{"toString":1}}\<close>. The
  template literal of \<open>extractAxiosError\<close> throws inside the \<open>catch\<close> block of the
  pipeline, so the update that would set the stage \<open>Error\<close> and the \<open>errorMessage\<close>
  is never issued: the state is unchanged, the item stays in stage \<open>Creating\<close> with
  no \<open>errorMessage\<close>, and the promise of the pipeline is rejected. A failed upload
  with the same body does the same.
\<close>

theorem create_failure_without_error_stage:
  "after_create sample_engine ''0-0-a.mp4'' (Inl unprintable)
       (startUploads (exec sample_engine sample_selected init_state))
     = (Some (Rejected (CannotConvert (JObj [(''toString'', JNum 1)]))),
        startUploads (exec sample_engine sample_selected init_state)) \<and>
   after_upload sample_engine ''0-0-a.mp4'' ''v1'' (Inl unprintable)
       (startUploads (exec sample_engine sample_selected init_state))
     = (Some (Rejected (CannotConvert (JObj [(''toString'', JNum 1)]))),
        startUploads (exec sample_engine sample_selected init_state)) \<and>
   map (\<lambda>it. (item_id it, stage it, errorMessage it))
       (items (startUploads (exec sample_engine sample_selected init_state)))
     = [(''0-0-a.mp4'', Creating, None), (''0-1-b.mp4'', Creating, None)]"
  by code_simp

subsection \<open>C4\<close>

text \<open>
  C4. Two files are selected and Upload All is pressed, which sets the busy flag;
  the create request of the first item then fails with HTTP 500 and the body
  \<open>{"message":{"toString":1}}\<close>. The \<open>TypeError\<close> thrown in the \<open>catch\<close> block
  rejects the promise of that pipeline and with it the aggregate \<open>Promise.all\<close>, and
  the \<open>finally\<close> block clears the busy flag at once: at that moment both items are in
  stage \<open>Creating\<close>, neither in \<open>Polling\<close> nor in \<open>Error\<close>, and the pipeline of the
  second item is still in flight (it goes on to \<open>Polling\<close> later).
\<close>

theorem rejected_pipeline_clears_busy_flag:
  "isUploading (startUploads (exec sample_engine sample_selected init_state)) \<and>
   awaited (startUploads (exec sample_engine sample_selected init_state))
     = [''0-0-a.mp4'', ''0-1-b.mp4''] \<and>
   fst (after_create sample_engine ''0-0-a.mp4'' (Inl unprintable)
          (startUploads (exec sample_engine sample_selected init_state)))
     = Some (Rejected (CannotConvert (JObj [(''toString'', JNum 1)]))) \<and>
   \<not> isUploading (exec sample_engine [CreateSettled ''0-0-a.mp4'' (Inl unprintable)]
                    (startUploads (exec sample_engine sample_selected init_state))) \<and>
   map stage (items (exec sample_engine [CreateSettled ''0-0-a.mp4'' (Inl unprintable)]
                       (startUploads (exec sample_engine sample_selected init_state))))
     = [Creating, Creating] \<and>
   map stage (items (exec sample_engine
        [CreateSettled ''0-0-a.mp4'' (Inl unprintable),
         CreateSettled ''0-1-b.mp4'' (Inr \<lparr>created_videoId = ''v2'', signedUrl = ''https://storage/v2''\<rparr>),
         UploadSettled ''0-1-b.mp4'' ''v2'' (Inr ())]
        (startUploads (exec sample_engine sample_selected init_state))))
     = [Creating, Polling]"
  by code_simp

subsection \<open>C5\<close>

text \<open>
  C5. In every reachable state an item has at most one active poll timer. Starting a
  poll for an item leaves exactly one active timer for it, the new one, and no timer
  that polled for the item before is still active. After \<open>clearAll\<close> no interval
  timer is active, the registry is empty and the items and files are discarded.
\<close>

theorem one_timer_per_item:
  "let st = exec eng es init_state
   in length (timers_of i st) \<le> 1 \<and>
      timers_of i (pollVideoStatus i v st) = [nextTimer st] \<and>
      (\<forall>h \<in> set (timers_of i st). h \<notin> fst ` set (intervals (pollVideoStatus i v st))) \<and>
      intervals (clearAll st) = [] \<and> pollTimers (clearAll st) = [] \<and>
      items (clearAll st) = [] \<and> files (clearAll st) = []"
proof -
  define st where "st = exec eng es init_state"
  have inv: "timers_inv st" unfolding st_def by (rule timers_inv_reachable)
  have new: "timers_of i (pollVideoStatus i v st) = [nextTimer st]"
    using inv by (rule timers_of_pollVideoStatus)
  have old: "h \<notin> fst ` set (intervals (pollVideoStatus i v st))"
    if "h \<in> set (timers_of i st)" for h
  proof
    assume "h \<in> fst ` set (intervals (pollVideoStatus i v st))"
    then obtain cb where m: "(h, cb) \<in> set (intervals (pollVideoStatus i v st))" by force
    from that inv have "h < nextTimer st" "map_of (pollTimers st) i = Some h" "0 < h"
      by (auto simp: timers_of_def timers_inv_def)
    with m show False
      by (auto simp: pollVideoStatus_intervals set_delete)
  qed
  show ?thesis
    unfolding Let_def st_def [symmetric]
    using timers_of_le_one [OF inv, of i] new old clearAll_intervals [OF inv]
    by (simp add: clearAll_def)
qed

theorem one_timer_per_item_witness:
  "timers_of sample_id (exec sample_engine sample_upload init_state) = [1] \<and>
   timers_of sample_id (pollVideoStatus sample_id ''v2'' (exec sample_engine sample_upload init_state)) = [2] \<and>
   1 \<notin> fst ` set (intervals (pollVideoStatus sample_id ''v2'' (exec sample_engine sample_upload init_state))) \<and>
   intervals (clearAll (exec sample_engine sample_upload init_state)) = []"
proof -
  have a: "timers_of sample_id (exec sample_engine sample_upload init_state) = [1]"
    "nextTimer (exec sample_engine sample_upload init_state) = 2"
    by (simp_all add: sample_state_reached sample_state_def timers_of_def)
  show ?thesis
    using a one_timer_per_item [where i = sample_id and es = sample_upload and v = "''v2''"
        and eng = sample_engine]
    by (simp add: Let_def)
qed

subsection \<open>C6\<close>




subsection \<open>C7\<close>



subsection \<open>C8\<close>

text \<open>
  C8. A transport error is rendered as one string. With a response it is the
  status, a colon and a space, and a message: the fixed text \<open>Request failed\<close> when
  the body is absent or falsy; else the string conversion of the body's \<open>message\<close>
  property if that is truthy, else of its \<open>error\<close> property if that is truthy,
  whenever that property converts to a string; else \<open>JSON.stringify\<close> of the body.
  Without a response but with a request it is the fixed text
  \<open>No response from server\<close>. Otherwise it is the error's own \<open>message\<close>, and the
  fixed text \<open>Unknown error\<close> only when that message is empty. (The engine prints no
  number as the empty string.)
\<close>

theorem rendered_transport_error:
  assumes "\<And>x. Number_toString eng x \<noteq> []"
  shows "(\<forall>r m. response err = Some r \<and> spec_body_message eng (response_data r) = Inr m \<longrightarrow>
            extractAxiosError eng err
              = Inr (string_of_nat (unat (response_status r)) @ '': '' @ m)) \<and>
         (response err = None \<longrightarrow>
            extractAxiosError eng err
              = Inr (if request err then ''No response from server''
                     else if message err = [] then ''Unknown error'' else message err))"
proof (intro conjI allI impI)
  fix r m
  assume "response err = Some r \<and> spec_body_message eng (response_data r) = Inr m"
  then show "extractAxiosError eng err
              = Inr (string_of_nat (unat (response_status r)) @ '': '' @ m)"
    using extractAxiosError_response [OF assms, of err r] by simp
next
  assume "response err = None"
  then show "extractAxiosError eng err
              = Inr (if request err then ''No response from server''
                     else if message err = [] then ''Unknown error'' else message err)"
    by (simp add: extractAxiosError_def)
qed

theorem rendered_transport_error_witness:
  "extractAxiosError sample_engine unauthorized = Inr ''401: invalid token'' \<and>
   extractAxiosError sample_engine \<lparr>response = Some \<lparr>response_status = 500,
       response_data = Some (JObj [(''error'', JStr ''boom'')])\<rparr>, request = True, message = []\<rparr>
     = Inr ''500: boom'' \<and>
   extractAxiosError sample_engine \<lparr>response = Some \<lparr>response_status = 500,
       response_data = Some (JObj [(''code'', JNum 7)])\<rparr>, request = True, message = []\<rparr>
     = Inr (''500: {'' @ [CHR 0x22] @ ''code'' @ [CHR 0x22] @ '':7}'') \<and>
   extractAxiosError sample_engine \<lparr>response = Some \<lparr>response_status = 502,
       response_data = Some (JStr [])\<rparr>, request = True, message = []\<rparr>
     = Inr ''502: Request failed'' \<and>
   extractAxiosError sample_engine \<lparr>response = None, request = True, message = ''Network Error''\<rparr>
     = Inr ''No response from server''"
proof -
  have a: "string_of_nat 401 = ''401''" "string_of_nat 500 = ''500''" "string_of_nat 502 = ''502''"
    by code_simp+
  have b: "spec_body_message sample_engine (Some (JObj [(''message'', JStr ''invalid token'')]))
             = Inr ''invalid token''"
    "spec_body_message sample_engine (Some (JObj [(''error'', JStr ''boom'')])) = Inr ''boom''"
    "spec_body_message sample_engine (Some (JObj [(''code'', JNum 7)]))
       = Inr (''{'' @ [CHR 0x22] @ ''code'' @ [CHR 0x22] @ '':7}'')"
    "spec_body_message sample_engine (Some (JStr [])) = Inr ''Request failed''"
    by code_simp+
  show ?thesis
    using rendered_transport_error [OF sample_engine_numbers, of unauthorized]
      rendered_transport_error [OF sample_engine_numbers, of "\<lparr>response = Some \<lparr>response_status = 500,
       response_data = Some (JObj [(''error'', JStr ''boom'')])\<rparr>, request = True, message = []\<rparr>"]
      rendered_transport_error [OF sample_engine_numbers, of "\<lparr>response = Some \<lparr>response_status = 500,
       response_data = Some (JObj [(''code'', JNum 7)])\<rparr>, request = True, message = []\<rparr>"]
      rendered_transport_error [OF sample_engine_numbers, of "\<lparr>response = Some \<lparr>response_status = 502,
       response_data = Some (JStr [])\<rparr>, request = True, message = []\<rparr>"]
      rendered_transport_error [OF sample_engine_numbers,
        of "\<lparr>response = None, request = True, message = ''Network Error''\<rparr>"]
    by (simp add: a b unauthorized_def)
qed

text \<open>
  The text for an error without response and without request is not fixed: it is the
  message of the error. And for a response with an empty body the message is the fixed
  text \<open>Request failed\<close>, which is neither a field of the body nor its
  serialization (two quotation marks).
\<close>

theorem local_error_text_not_fixed:
  "extractAxiosError sample_engine \<lparr>response = None, request = False, message = ''Invalid URL''\<rparr>
     = Inr ''Invalid URL'' \<and>
   extractAxiosError sample_engine \<lparr>response = None, request = False, message = []\<rparr>
     = Inr ''Unknown error'' \<and>
   extractAxiosError sample_engine \<lparr>response = None, request = False, message = ''Invalid URL''\<rparr>
     \<noteq> extractAxiosError sample_engine \<lparr>response = None, request = False, message = []\<rparr> \<and>
   extractAxiosError sample_engine
       \<lparr>response = Some \<lparr>response_status = 502, response_data = Some (JStr [])\<rparr>,
        request = True, message = []\<rparr> = Inr ''502: Request failed'' \<and>
   JSON_stringify sample_engine (JStr []) = [CHR 0x22, CHR 0x22]"
  by code_simp

subsection \<open>C9\<close>

text \<open>
  C9. \<open>updateItem i f\<close> keeps the length and the order of the item list: position
  \<open>k\<close> of the new list is \<open>f\<close> applied to the old item at position \<open>k\<close> when
  that item's id is \<open>i\<close>, and is the old item otherwise. When no item has the id
  \<open>i\<close>, the whole state is unchanged.
\<close>

theorem updateItem_frame:
  "length (items (updateItem i f st)) = length (items st) \<and>
   (\<forall>k < length (items st).
      items (updateItem i f st) ! k
        = (if item_id (items st ! k) = i then f (items st ! k) else items st ! k)) \<and>
   (i \<notin> item_id ` set (items st) \<longrightarrow> updateItem i f st = st)"
  by (simp add: updateItem_list_length updateItem_list_nth)
     (simp add: updateItem_def updateItem_list_absent)

theorem updateItem_frame_witness:
  "0 < length (items sample_state) \<and>
   items (updateItem sample_id (\<lambda>prev. prev\<lparr>stage := Done\<rparr>) sample_state) ! 0
     = sample_item\<lparr>stage := Done\<rparr> \<and>
   ''other'' \<notin> item_id ` set (items sample_state) \<and>
   updateItem ''other'' (\<lambda>prev. prev\<lparr>stage := Done\<rparr>) sample_state = sample_state"
  using updateItem_frame [of sample_id "\<lambda>prev. prev\<lparr>stage := Done\<rparr>" sample_state]
    updateItem_frame [of "''other''" "\<lambda>prev. prev\<lparr>stage := Done\<rparr>" sample_state]
  by (simp add: sample_state_def sample_item_def sample_id_def)

subsection \<open>C10\<close>

text \<open>
  C10. When a poll check in a reachable state reads a terminal status (the status
  string that \<open>run\<close> computes from the body, normalized and lower-cased, is one of
  the seven words), the same step leaves the registry without an entry for the item and
  leaves no interval timer of the item active, and every item with that id is in stage
  \<open>Done\<close> or \<open>Error\<close>. Cancelling is idempotent: with no registry entry the three
  cancelling statements change nothing, \<open>clearInterval\<close> on a handle that is not
  active changes nothing, and cancelling twice is the same as cancelling once.
\<close>

theorem terminal_poll_unregisters:
  "let st = exec eng es init_state; st' = run_resolved eng i data st
   in (\<forall>n. normalized_status eng data = Inr n \<and>
           toLowerCase n \<in> set doneStatuses \<union> set errorStatuses \<longrightarrow>
         map_of (pollTimers st') i = None \<and> timers_of i st' = [] \<and>
         (\<forall>it \<in> set (items st'). item_id it = i \<longrightarrow> stage it = Done \<or> stage it = Error)) \<and>
      (map_of (pollTimers st) i = None \<longrightarrow> stop_timer i st = st) \<and>
      (h \<notin> fst ` set (intervals st) \<longrightarrow> clearInterval h st = st) \<and>
      stop_timer i (stop_timer i st) = stop_timer i st"
proof -
  define st where "st = exec eng es init_state"
  have inv: "timers_inv st" unfolding st_def by (rule timers_inv_reachable)
  have a: "map_of (pollTimers (run_resolved eng i data st)) i = None \<and>
           timers_of i (run_resolved eng i data st) = []"
    if "normalized_status eng data = Inr n"
      and "toLowerCase n \<in> set doneStatuses \<union> set errorStatuses" for n
    using that(2) inv
    by (simp add: run_resolved_timers(1) [OF that(1)]
          run_resolved_terminal_timers [OF _ that(1)] delete_conv')
  have b: "stage it = Done \<or> stage it = Error"
    if n: "normalized_status eng data = Inr n"
      and "toLowerCase n \<in> set doneStatuses \<union> set errorStatuses"
      and "it \<in> set (items (run_resolved eng i data st))" and "item_id it = i" for it n
  proof -
    from that(3,4) obtain x where "it =
       (if toLowerCase n \<in> set doneStatuses then x\<lparr>statusText := n, stage := Done\<rparr>
        else if toLowerCase n \<in> set errorStatuses
        then x\<lparr>statusText := n, stage := Error, errorMessage := Some (''Encoding '' @ n)\<rparr>
        else x\<lparr>statusText := n\<rparr>)"
      unfolding run_resolved_items [OF n]
      by (auto dest!: updateItem_list_mem)
    with that(2) show ?thesis by auto
  qed
  have c: "stop_timer i (stop_timer i st) = stop_timer i st"
    by (rule stop_timer_absent) (rule stop_timer_unregisters)
  show ?thesis
    unfolding Let_def st_def [symmetric]
  proof (intro conjI impI ballI allI)
    fix n
    assume t: "normalized_status eng data = Inr n \<and>
           toLowerCase n \<in> set doneStatuses \<union> set errorStatuses"
    from a [of n] t show "map_of (pollTimers (run_resolved eng i data st)) i = None"
      and "timers_of i (run_resolved eng i data st) = []" by simp_all
    fix it assume "it \<in> set (items (run_resolved eng i data st))" "item_id it = i"
    with t show "stage it = Done \<or> stage it = Error" using b [of n it] by simp
  next
    assume "map_of (pollTimers st) i = None"
    then show "stop_timer i st = st" by (rule stop_timer_absent)
  next
    assume "h \<notin> fst ` set (intervals st)"
    then show "clearInterval h st = st" by (rule clearInterval_inactive)
  next
    show "stop_timer i (stop_timer i st) = stop_timer i st" by (rule c)
  qed
qed

theorem terminal_poll_unregisters_witness:
  "normalized_status sample_engine (Some (JObj [(''status'', JStr ''Ready'')])) = Inr ''Ready'' \<and>
   toLowerCase ''Ready'' \<in> set doneStatuses \<union> set errorStatuses \<and>
   map_of (pollTimers (exec sample_engine sample_upload init_state)) sample_id = Some 1 \<and>
   map_of (pollTimers (run_resolved sample_engine sample_id (Some (JObj [(''status'', JStr ''Ready'')]))
       (exec sample_engine sample_upload init_state))) sample_id = None \<and>
   map_of (pollTimers (exec sample_engine [] init_state)) sample_id = None \<and>
   stop_timer sample_id (exec sample_engine [] init_state) = exec sample_engine [] init_state \<and>
   7 \<notin> fst ` set (intervals (exec sample_engine sample_upload init_state)) \<and>
   clearInterval 7 (exec sample_engine sample_upload init_state)
     = exec sample_engine sample_upload init_state"
proof -
  have t: "normalized_status sample_engine (Some (JObj [(''status'', JStr ''Ready'')])) = Inr ''Ready''"
    "toLowerCase ''Ready'' \<in> set doneStatuses \<union> set errorStatuses"
    by (simp_all add: sample_ready lower_ready doneStatuses_def)
  have r: "map_of (pollTimers (exec sample_engine sample_upload init_state)) sample_id = Some 1"
    "7 \<notin> fst ` set (intervals (exec sample_engine sample_upload init_state))"
    by (simp_all add: sample_state_reached sample_state_def)
  have e: "map_of (pollTimers (exec sample_engine [] init_state)) sample_id = None"
    by (simp add: exec_def init_state_def)
  show ?thesis
    using t r e
      terminal_poll_unregisters [where es = sample_upload and i = sample_id and h = 7
          and data = "Some (JObj [(''status'', JStr ''Ready'')])" and eng = sample_engine]
      terminal_poll_unregisters [where es = "[]" and i = sample_id and h = 7
          and data = "Some (JObj [(''status'', JStr ''Ready'')])" and eng = sample_engine]
    unfolding Let_def by blast
qed

end
